theory Spec2Isabelle
  imports Main
begin

section \<open>JavaScript values handled by the SQL template composer\<close>

text \<open>
  The composer \<^verbatim>\<open>sql\<close> is a template tag: it receives the literal segments of the
  template (\<^verbatim>\<open>parts\<close>) and the slot values (\<^verbatim>\<open>subSqls\<close>). A slot value is any
  JavaScript value. The values of this development are:
  \<^item> \<^verbatim>\<open>undefined\<close>, \<^verbatim>\<open>null\<close>, booleans, numbers, bigints, strings and symbols;
  \<^item> plain objects, given by their own properties in enumeration order (the keys are
    distinct strings); their prototype is \<^verbatim>\<open>Object.prototype\<close>, so a method that is
    no own property is the built-in one;
  \<^item> functions, given by the value they return: a function returns that value on every
    call, whatever its arguments, it has no own property that the composer reads, and the
    templates that callbacks return are nested to a finite depth (a callback whose
    template holds the callback itself, on which the loop would run forever, is no value
    of this type);
  \<^item> arrays, given by their elements. The array \<^verbatim>\<open>[strings, inlineParams]\<close> that the
    inline template constructor builds is \<open>InlineSQLResult strings inlineParams\<close>.

  A finite number other than zero is given as ECMAScript's \<^verbatim>\<open>Number::toString\<close> reads it:
  by its sign, the digits \<open>s\<close> of the shortest decimal that denotes it (\<open>s\<close> is positive
  and no multiple of ten) and the exponent \<open>n\<close> such that the number is
  \<open>s * 10 ^ (n - k)\<close>, where \<open>k\<close> is the number of digits of \<open>s\<close>. So \<open>1.5\<close> is
  \<open>Finite False 15 1\<close> and \<open>1e21\<close> is \<open>Finite False 1 22\<close>. Both zeros are \<open>Zero\<close>: they
  are equal under \<^verbatim>\<open>===\<close>, both falsy and both printed \<^verbatim>\<open>0\<close>. A string is a sequence of
  code units below 256.
\<close>

datatype number = Zero | Finite bool nat int | NaN | PosInfinity | NegInfinity

datatype jsval =
    JUndefined
  | JNull
  | JBool bool
  | JNum number
  | JBigInt int
  | JStr string
  | JSymbol
  | JObject "(string \<times> jsval) list"
  | JFunction jsval
  | JArray "jsval list"

text \<open>Line 98: \<^verbatim>\<open>inlineSQL = (strings, ...inlineParams) => [strings, inlineParams]\<close>.\<close>

definition InlineSQLResult :: "string list \<Rightarrow> jsval list \<Rightarrow> jsval" where
  "InlineSQLResult strings inlineParams = JArray [JArray (map JStr strings), JArray inlineParams]"

datatype js_type =
  TUndefined | TBoolean | TString | TNumber | TBigInt | TSymbol | TObject | TFunction

fun typeof :: "jsval \<Rightarrow> js_type" where
  "typeof JUndefined = TUndefined"
| "typeof JNull = TObject"
| "typeof (JBool b) = TBoolean"
| "typeof (JNum n) = TNumber"
| "typeof (JBigInt i) = TBigInt"
| "typeof (JStr s) = TString"
| "typeof JSymbol = TSymbol"
| "typeof (JObject props) = TObject"
| "typeof (JFunction r) = TFunction"
| "typeof (JArray xs) = TObject"

text \<open>\<^verbatim>\<open>!result\<close>: the falsy values are \<^verbatim>\<open>undefined\<close>, \<^verbatim>\<open>null\<close>, \<^verbatim>\<open>false\<close>, zero,
  \<^verbatim>\<open>NaN\<close>, \<^verbatim>\<open>0n\<close> and the empty string. Symbols, objects, arrays and functions are
  truthy.\<close>

fun falsy :: "jsval \<Rightarrow> bool" where
  "falsy JUndefined = True"
| "falsy JNull = True"
| "falsy (JBool b) = (\<not> b)"
| "falsy (JNum n) = (n = Zero \<or> n = NaN)"
| "falsy (JBigInt i) = (i = 0)"
| "falsy (JStr s) = (s = [])"
| "falsy JSymbol = False"
| "falsy (JObject props) = False"
| "falsy (JFunction r) = False"
| "falsy (JArray xs) = False"

text \<open>\<^verbatim>\<open>Array.isArray\<close>: true of every array.\<close>

fun isArray :: "jsval \<Rightarrow> bool" where
  "isArray (JArray xs) = True"
| "isArray v = False"

text \<open>A value that is no object: \<^verbatim>\<open>ToPrimitive\<close> takes the result of a method only when
  it is one of these.\<close>

fun primitive :: "jsval \<Rightarrow> bool" where
  "primitive (JObject props) = False"
| "primitive (JFunction r) = False"
| "primitive (JArray xs) = False"
| "primitive v = True"

text \<open>The two \<^verbatim>\<open>throw new Error(...)\<close> of the composer are \<open>InvalidParameter\<close>
  (message \<^verbatim>\<open>Invalid parameter:\<close>) and \<open>InvalidFunctionParameterResult\<close> (message
  \<^verbatim>\<open>Invalid function parameter result:\<close>); each carries the offending value in place of
  the message text. \<open>TypeError\<close> is the error that the host throws: a property of
  \<^verbatim>\<open>undefined\<close> or \<^verbatim>\<open>null\<close> is read, a value that is no function is called, a
  bigint is given to \<^verbatim>\<open>JSON.stringify\<close>, a symbol or an object without a primitive value
  is converted to a string.

  \<open>Unmodelled\<close> is no error of the code. It is the answer of this theory for an array that
  a callback returns and whose treatment by lines 129 to 143 needs a part of JavaScript
  that the theory does not describe (arithmetic on doubles, the source text and the arity
  of a function, a stack that has become a string): nothing is stated about such a
  composition.\<close>

datatype error =
    InvalidParameter jsval
  | InvalidFunctionParameterResult jsval
  | TypeError
  | Unmodelled

subsection \<open>The parameter recognizer (\<^verbatim>\<open>types.ts\<close>)\<close>

text \<open>The built-in \<^verbatim>\<open>Object.prototype.hasOwnProperty\<close> on a plain object.\<close>

definition hasOwnProperty :: "(string \<times> jsval) list \<Rightarrow> string \<Rightarrow> bool" where
  "hasOwnProperty props k = (k \<in> set (map fst props))"

text \<open>Line 244: \<^verbatim>\<open>a.hasOwnProperty('type') && a.hasOwnProperty('value')\<close>. The method is
  read from the candidate. Reading it from \<^verbatim>\<open>undefined\<close> or \<^verbatim>\<open>null\<close> throws. An object
  with an own property \<^verbatim>\<open>hasOwnProperty\<close> answers with that property: calling it throws
  when it is no function, and when it is the function that returns \<open>r\<close>, both calls
  return \<open>r\<close> and so does \<^verbatim>\<open>&&\<close>. For every other value the built-in method answers; a
  boolean, a number, a bigint, a string, a symbol, an array and a function have no own
  property named \<^verbatim>\<open>type\<close> or \<^verbatim>\<open>value\<close>.\<close>

fun isSQLParameter :: "jsval \<Rightarrow> error + jsval" where
  "isSQLParameter JUndefined = Inl TypeError"
| "isSQLParameter JNull = Inl TypeError"
| "isSQLParameter (JObject props) =
     (case map_of props ''hasOwnProperty'' of
        None \<Rightarrow> Inr (JBool (hasOwnProperty props ''type'' \<and> hasOwnProperty props ''value''))
      | Some (JFunction r) \<Rightarrow> Inr r
      | Some _ \<Rightarrow> Inl TypeError)"
| "isSQLParameter v = Inr (JBool False)"

text \<open>The test \<^verbatim>\<open>if (isSQLParameter(x))\<close>: the call returns and its value is truthy.\<close>

definition recognized :: "jsval \<Rightarrow> bool" where
  "recognized v = (case isSQLParameter v of Inl e \<Rightarrow> False | Inr b \<Rightarrow> \<not> falsy b)"

text \<open>The factories of \<^verbatim>\<open>types.ts\<close>: one frozen object \<^verbatim>\<open>{ type, value }\<close> per tag.\<close>

definition typed :: "string \<Rightarrow> jsval \<Rightarrow> jsval" where
  "typed tag v = JObject [(''type'', JStr tag), (''value'', v)]"

definition CHAR_tag :: "string \<Rightarrow> jsval" where "CHAR_tag v = typed ''CHAR'' (JStr v)"
definition VARCHAR :: "string \<Rightarrow> jsval" where "VARCHAR v = typed ''VARCHAR'' (JStr v)"
definition TIMESTAMP :: "string \<Rightarrow> jsval" where "TIMESTAMP v = typed ''TIMESTAMP'' (JStr v)"
definition DATE :: "string \<Rightarrow> jsval" where "DATE v = typed ''DATE'' (JStr v)"
definition INTEGER :: "number \<Rightarrow> jsval" where "INTEGER v = typed ''INTEGER'' (JNum v)"
definition BIGINT :: "number \<Rightarrow> jsval" where "BIGINT v = typed ''BIGINT'' (JNum v)"
definition FLOAT :: "number \<Rightarrow> jsval" where "FLOAT v = typed ''FLOAT'' (JNum v)"
definition REAL :: "number \<Rightarrow> jsval" where "REAL v = typed ''REAL'' (JNum v)"
definition DECIMAL :: "number \<Rightarrow> jsval" where "DECIMAL v = typed ''DECIMAL'' (JNum v)"
definition DOUBLE :: "number \<Rightarrow> jsval" where "DOUBLE v = typed ''DOUBLE'' (JNum v)"
definition TINYINT :: "number \<Rightarrow> jsval" where "TINYINT v = typed ''TINYINT'' (JNum v)"
definition SMALLINT :: "number \<Rightarrow> jsval" where "SMALLINT v = typed ''SMALLINT'' (JNum v)"
definition BOOLEAN :: "bool \<Rightarrow> jsval" where "BOOLEAN v = typed ''BOOLEAN'' (JBool v)"
definition OTHER :: "jsval \<Rightarrow> jsval" where "OTHER v = typed ''OTHER'' v"


subsection \<open>The literal recognizer (\<^verbatim>\<open>sql.ts\<close>)\<close>

definition isSQLLiteral :: "jsval \<Rightarrow> bool" where
  "isSQLLiteral a =
     (case typeof a of
        TBoolean \<Rightarrow> True
      | TString \<Rightarrow> True
      | TNumber \<Rightarrow> True
      | TObject \<Rightarrow> a = JNull
      | _ \<Rightarrow> False)"

subsection \<open>Host functions: numbers and strings as text\<close>

definition digit_char :: "nat \<Rightarrow> char" where
  "digit_char d = char_of (48 + d)"

fun show_nat :: "nat \<Rightarrow> string" where
  "show_nat n = (if n < 10 then [digit_char n] else show_nat (n div 10) @ [digit_char (n mod 10)])"

declare show_nat.simps [simp del]


text \<open>\<^verbatim>\<open>Number::toString\<close> for a finite number that is not zero (ECMAScript 6.1.6.1.20,
  steps 5 to 10): with \<open>k\<close> digits \<open>s\<close> and exponent \<open>n\<close>, the digits are followed by
  zeros when \<open>k \<le> n \<le> 21\<close>, hold a decimal point when \<open>0 < n \<le> 21\<close>, follow \<^verbatim>\<open>0.\<close> and
  zeros when \<open>-6 < n \<le> 0\<close>, and are written with an exponent otherwise.\<close>

definition digits_to_string :: "nat \<Rightarrow> int \<Rightarrow> string" where
  "digits_to_string s n =
     (let ds = show_nat s; k = int (length ds)
      in if k \<le> n \<and> n \<le> 21 then ds @ replicate (nat (n - k)) CHR ''0''
         else if 0 < n \<and> n \<le> 21 then take (nat n) ds @ ''.'' @ drop (nat n) ds
         else if - 6 < n \<and> n \<le> 0 then ''0.'' @ replicate (nat (- n)) CHR ''0'' @ ds
         else
           let e = (if 0 < n - 1 then ''+'' else ''-'') @ show_nat (nat \<bar>n - 1\<bar>)
           in if k = 1 then ds @ ''e'' @ e
              else take 1 ds @ ''.'' @ drop 1 ds @ ''e'' @ e)"

definition number_to_string :: "number \<Rightarrow> string" where
  "number_to_string x =
     (case x of
        Zero \<Rightarrow> ''0''
      | Finite negative s n \<Rightarrow> (if negative then ''-'' else []) @ digits_to_string s n
      | NaN \<Rightarrow> ''NaN''
      | PosInfinity \<Rightarrow> ''Infinity''
      | NegInfinity \<Rightarrow> ''-Infinity'')"

text \<open>The number that an integer literal denotes, when the integer is a double: its
  digits without the zeros at the end, and the number of its digits as exponent.\<close>

fun strip_zeros :: "nat \<Rightarrow> nat" where
  "strip_zeros n = (if n \<noteq> 0 \<and> n mod 10 = 0 then strip_zeros (n div 10) else n)"

declare strip_zeros.simps [simp del]

definition NumInt :: "int \<Rightarrow> number" where
  "NumInt i =
     (if i = 0 then Zero
      else Finite (i < 0) (strip_zeros (nat \<bar>i\<bar>)) (int (length (show_nat (nat \<bar>i\<bar>)))))"

definition hex_char :: "nat \<Rightarrow> char" where
  "hex_char d = (if d < 10 then char_of (48 + d) else char_of (87 + d))"

text \<open>\<^verbatim>\<open>QuoteJSONString\<close>: the double quote and the backslash are escaped, a control
  character is written by its short escape or as \<^verbatim>\<open>\u00xx\<close>, every other code unit
  stands for itself.\<close>

definition escape_char :: "char \<Rightarrow> string" where
  "escape_char c =
     (let n = (of_char c :: nat) in
      if n = 34 then [CHR 0x5C, CHR 0x22]
      else if n = 92 then [CHR 0x5C, CHR 0x5C]
      else if n = 8 then [CHR 0x5C, CHR ''b'']
      else if n = 9 then [CHR 0x5C, CHR ''t'']
      else if n = 10 then [CHR 0x5C, CHR ''n'']
      else if n = 12 then [CHR 0x5C, CHR ''f'']
      else if n = 13 then [CHR 0x5C, CHR ''r'']
      else if n < 32 then
        [CHR 0x5C, CHR ''u'', CHR ''0'', CHR ''0'', hex_char (n div 16), hex_char (n mod 16)]
      else [c])"

definition quote :: "string \<Rightarrow> string" where
  "quote s = CHR 0x22 # concat (map escape_char s) @ [CHR 0x22]"

text \<open>\<^verbatim>\<open>JSON.stringify\<close> of a number: \<^verbatim>\<open>null\<close> for \<^verbatim>\<open>NaN\<close> and the infinities.\<close>

definition stringify_number :: "number \<Rightarrow> string" where
  "stringify_number x =
     (case x of
        NaN \<Rightarrow> ''null''
      | PosInfinity \<Rightarrow> ''null''
      | NegInfinity \<Rightarrow> ''null''
      | _ \<Rightarrow> number_to_string x)"

fun commas :: "string list \<Rightarrow> string" where
  "commas [] = []"
| "commas [x] = x"
| "commas (x # xs) = x @ '','' @ commas xs"

subsection \<open>Host functions: \<^verbatim>\<open>JSON.stringify\<close> and the conversion to a string\<close>

lemma map_of_size:
  "map_of props k = Some v \<Longrightarrow> size v < Suc (size_list (size_prod (\<lambda>_. 0) size) props)"
  by (induction props) (auto split: if_splits)

text \<open>\<^verbatim>\<open>JSON.stringify(value)\<close> with no replacer (ECMAScript 25.5.2). \<open>ser_property\<close> is
  \<^verbatim>\<open>SerializeJSONProperty\<close>: an object with an own method \<^verbatim>\<open>toJSON\<close> is replaced by what
  the method returns, once. \<open>Inr None\<close> is the result \<^verbatim>\<open>undefined\<close> (for \<^verbatim>\<open>undefined\<close>, a
  function and a symbol): such a property is left out of an object and written \<^verbatim>\<open>null\<close>
  in an array. A bigint throws.\<close>

function (sequential) ser_property :: "jsval \<Rightarrow> error + string option"
  and ser_value :: "jsval \<Rightarrow> error + string option"
  and ser_elements :: "jsval list \<Rightarrow> error + string list"
  and ser_members :: "(string \<times> jsval) list \<Rightarrow> error + string list"
where
  "ser_property (JObject props) =
     (case map_of props ''toJSON'' of
        Some (JFunction r) \<Rightarrow> ser_value r
      | _ \<Rightarrow> ser_value (JObject props))"
| "ser_property v = ser_value v"
| "ser_value JUndefined = Inr None"
| "ser_value (JFunction r) = Inr None"
| "ser_value JSymbol = Inr None"
| "ser_value JNull = Inr (Some ''null'')"
| "ser_value (JBool b) = Inr (Some (if b then ''true'' else ''false''))"
| "ser_value (JNum x) = Inr (Some (stringify_number x))"
| "ser_value (JStr s) = Inr (Some (quote s))"
| "ser_value (JBigInt i) = Inl TypeError"
| "ser_value (JArray xs) =
     (case ser_elements xs of
        Inl e \<Rightarrow> Inl e
      | Inr ts \<Rightarrow> Inr (Some (''['' @ commas ts @ '']'')))"
| "ser_value (JObject props) =
     (case ser_members props of
        Inl e \<Rightarrow> Inl e
      | Inr ms \<Rightarrow> Inr (Some (''{'' @ commas ms @ ''}'')))"
| "ser_elements [] = Inr []"
| "ser_elements (x # xs) =
     (case ser_property x of
        Inl e \<Rightarrow> Inl e
      | Inr t \<Rightarrow>
          (case ser_elements xs of
             Inl e \<Rightarrow> Inl e
           | Inr ts \<Rightarrow> Inr ((case t of None \<Rightarrow> ''null'' | Some s \<Rightarrow> s) # ts)))"
| "ser_members [] = Inr []"
| "ser_members ((k, v) # ps) =
     (case ser_property v of
        Inl e \<Rightarrow> Inl e
      | Inr t \<Rightarrow>
          (case ser_members ps of
             Inl e \<Rightarrow> Inl e
           | Inr ms \<Rightarrow> Inr ((case t of None \<Rightarrow> [] | Some s \<Rightarrow> [quote k @ '':'' @ s]) @ ms)))"
  by pat_completeness auto
termination
  by (relation "measure (\<lambda>x. case x of
          Inl (Inl v) \<Rightarrow> 2 * size v + 1
        | Inl (Inr v) \<Rightarrow> 2 * size v
        | Inr (Inl xs) \<Rightarrow> 2 * size_list size xs + 1
        | Inr (Inr ps) \<Rightarrow> 2 * size_list (size_prod (\<lambda>_. 0) size) ps + 1)")
     (auto dest: map_of_size)

definition JSON_stringify :: "jsval \<Rightarrow> error + string option" where
  "JSON_stringify v = ser_property v"

text \<open>Whether \<^verbatim>\<open>`${v}`\<close> builds a string (\<^verbatim>\<open>ToString\<close>, ECMAScript 7.1.17 and 7.1.1.1).
  A symbol throws. An object is asked for \<^verbatim>\<open>toString()\<close> and then for \<^verbatim>\<open>valueOf()\<close>;
  the first result that is no object is converted; when neither method is a function that
  returns such a result, the conversion throws. The built-in \<^verbatim>\<open>toString\<close> returns a string
  for an object and for a function, and joins the elements of an array, each converted in
  turn but for \<^verbatim>\<open>undefined\<close> and \<^verbatim>\<open>null\<close>; the built-in \<^verbatim>\<open>valueOf\<close> returns the object.\<close>

definition by_valueOf :: "(string \<times> jsval) list \<Rightarrow> bool" where
  "by_valueOf props =
     (case map_of props ''valueOf'' of
        Some (JFunction r) \<Rightarrow> primitive r \<and> r \<noteq> JSymbol
      | _ \<Rightarrow> False)"

fun converts_to_string :: "jsval \<Rightarrow> bool" where
  "converts_to_string JSymbol = False"
| "converts_to_string (JObject props) =
     (case map_of props ''toString'' of
        None \<Rightarrow> True
      | Some (JFunction r) \<Rightarrow> if primitive r then r \<noteq> JSymbol else by_valueOf props
      | Some _ \<Rightarrow> by_valueOf props)"
| "converts_to_string (JArray xs) =
     list_all (\<lambda>x. x = JUndefined \<or> x = JNull \<or> converts_to_string x) xs"
| "converts_to_string v = True"

subsection \<open>Host functions: \<^verbatim>\<open>+\<close>, \<^verbatim>\<open>shift\<close>, \<^verbatim>\<open>join\<close>, \<^verbatim>\<open>trim\<close>\<close>

text \<open>An element of the arrays \<^verbatim>\<open>sqlTemplate\<close> and \<^verbatim>\<open>partsStack\<close>. It is a string while
  every \<^verbatim>\<open>partsStack.shift()\<close> finds a segment. \<^verbatim>\<open>shift\<close> on an empty array gives
  \<^verbatim>\<open>undefined\<close>, and \<^verbatim>\<open>undefined + undefined\<close> is \<^verbatim>\<open>NaN\<close>.\<close>

datatype cell = Undefined | NotANumber | Text string

text \<open>\<^verbatim>\<open>String(x)\<close>, as a template literal and \<^verbatim>\<open>+\<close> with a string apply it.\<close>

fun to_string :: "cell \<Rightarrow> string" where
  "to_string Undefined = ''undefined''"
| "to_string NotANumber = ''NaN''"
| "to_string (Text s) = s"

text \<open>\<^verbatim>\<open>x + y\<close>: concatenation when one side is a string, and \<^verbatim>\<open>NaN\<close> otherwise
  (\<^verbatim>\<open>undefined\<close> becomes the number \<^verbatim>\<open>NaN\<close>).\<close>

fun js_plus :: "cell \<Rightarrow> cell \<Rightarrow> cell" where
  "js_plus (Text a) y = Text (a @ to_string y)"
| "js_plus x (Text b) = Text (to_string x @ b)"
| "js_plus x y = NotANumber"

text \<open>\<^verbatim>\<open>xs.shift()\<close>: the removed first element, \<^verbatim>\<open>undefined\<close> on an empty array, and
  the array that is left.\<close>

fun shift :: "cell list \<Rightarrow> cell \<times> cell list" where
  "shift [] = (Undefined, [])"
| "shift (x # xs) = (x, xs)"

fun shift_value :: "jsval list \<Rightarrow> jsval \<times> jsval list" where
  "shift_value [] = (JUndefined, [])"
| "shift_value (x # xs) = (x, xs)"

text \<open>\<^verbatim>\<open>xs[i]\<close> on an array of strings: \<^verbatim>\<open>undefined\<close> out of range.\<close>

definition at_index :: "string list \<Rightarrow> int \<Rightarrow> cell" where
  "at_index xs i = (if 0 \<le> i \<and> i < int (length xs) then Text (xs ! nat i) else Undefined)"

text \<open>\<^verbatim>\<open>sqlTemplate[last] += y\<close> with \<^verbatim>\<open>last = sqlTemplate.length - 1\<close>. The array holds
  at least its first element from line 100 on, so \<open>last\<close> is an index of it.\<close>

definition add_to_last :: "cell list \<Rightarrow> cell \<Rightarrow> cell list" where
  "add_to_last sqlTemplate y =
     (let last = length sqlTemplate - 1
      in sqlTemplate[last := js_plus (sqlTemplate ! last) y])"

text \<open>\<^verbatim>\<open>partsStack[0] = x + partsStack[0]\<close>: the assignment creates the element when the
  array is empty.\<close>

fun prepend_to_head :: "cell \<Rightarrow> cell list \<Rightarrow> cell list" where
  "prepend_to_head x [] = [js_plus x Undefined]"
| "prepend_to_head x (p # ps) = js_plus x p # ps"

text \<open>\<^verbatim>\<open>xs.slice(1, xs.length - 1)\<close>.\<close>

definition interior :: "string list \<Rightarrow> string list" where
  "interior xs = take (length xs - 2) (drop 1 xs)"

text \<open>\<^verbatim>\<open>xs.join('?')\<close>: \<^verbatim>\<open>undefined\<close> is joined as the empty string.\<close>

fun join_text :: "cell \<Rightarrow> string" where
  "join_text Undefined = []"
| "join_text c = to_string c"

fun join :: "cell list \<Rightarrow> string" where
  "join [] = []"
| "join [x] = join_text x"
| "join (x # xs) = join_text x @ ''?'' @ join xs"

text \<open>\<^verbatim>\<open>s.trim()\<close>: white space and line terminators among the code units below 256.\<close>

definition is_space :: "char \<Rightarrow> bool" where
  "is_space c = ((of_char c :: nat) \<in> {9, 10, 11, 12, 13, 32, 160})"

definition trim :: "string \<Rightarrow> string" where
  "trim s = rev (dropWhile is_space (rev (dropWhile is_space s)))"

section \<open>The composer \<^verbatim>\<open>sql\<close> (the version its tests cover)\<close>

record loop_state =
  sqlTemplate :: "cell list"
  parameters :: "jsval list"
  partsStack :: "cell list"
  subSqlStack :: "jsval list"

text \<open>The two shapes of the returned object: \<^verbatim>\<open>{ query }\<close> and
  \<^verbatim>\<open>{ query, parameters }\<close>.\<close>

datatype sql_query = Query string | QueryWithParameters string "jsval list"

fun query :: "sql_query \<Rightarrow> string" where
  "query (Query q) = q"
| "query (QueryWithParameters q ps) = q"

fun parameters_field :: "sql_query \<Rightarrow> jsval list option" where
  "parameters_field (Query q) = None"
| "parameters_field (QueryWithParameters q ps) = Some ps"

text \<open>The branches of the loop body that both a slot value and a callback result take.\<close>

definition fuse_next :: "loop_state \<Rightarrow> jsval list \<Rightarrow> loop_state" where
  "fuse_next st rest =
     (let (p, ps) = shift (partsStack st)
      in st\<lparr>sqlTemplate := add_to_last (sqlTemplate st) p, partsStack := ps,
            subSqlStack := rest\<rparr>)"

text \<open>\<^verbatim>\<open>sqlTemplate[last] += `${JSON.stringify(x)}${partsStack.shift()}`\<close>.\<close>

definition insert_literal :: "loop_state \<Rightarrow> jsval \<Rightarrow> jsval list \<Rightarrow> error + loop_state" where
  "insert_literal st lit rest =
     (case JSON_stringify lit of
        Inl e \<Rightarrow> Inl e
      | Inr t \<Rightarrow>
          let rendered = (case t of None \<Rightarrow> ''undefined'' | Some s \<Rightarrow> s);
              (p, ps) = shift (partsStack st)
          in Inr (st\<lparr>sqlTemplate := add_to_last (sqlTemplate st) (Text (rendered @ to_string p)),
                     partsStack := ps, subSqlStack := rest\<rparr>))"

definition bind_parameter :: "loop_state \<Rightarrow> jsval \<Rightarrow> jsval list \<Rightarrow> loop_state" where
  "bind_parameter st param rest =
     (let (p, ps) = shift (partsStack st)
      in st\<lparr>sqlTemplate := sqlTemplate st @ [p], parameters := parameters st @ [param],
            partsStack := ps, subSqlStack := rest\<rparr>)"

text \<open>Lines 132 to 134 when the loop continues: what \<^verbatim>\<open>inlineStrings[0]\<close> holds is merged
  into the last output segment, and nothing else changes.\<close>

definition merge_first :: "loop_state \<Rightarrow> cell \<Rightarrow> jsval list \<Rightarrow> loop_state" where
  "merge_first st first rest =
     st\<lparr>sqlTemplate := add_to_last (sqlTemplate st) first, subSqlStack := rest\<rparr>"

text \<open>Lines 132 and 137 to 143 for inline strings that are strings: the first one is merged
  into the last output segment, the last one into the head of \<^verbatim>\<open>partsStack\<close>, the strings
  in between are put in front of \<^verbatim>\<open>partsStack\<close>; \<open>stack\<close> is the new \<^verbatim>\<open>subSqlStack\<close>.\<close>

definition splice :: "loop_state \<Rightarrow> string list \<Rightarrow> jsval list \<Rightarrow> loop_state" where
  "splice st inlineStrings stack =
     st\<lparr>sqlTemplate := add_to_last (sqlTemplate st) (at_index inlineStrings 0),
        partsStack :=
          map Text (interior inlineStrings) @
          prepend_to_head (at_index inlineStrings (int (length inlineStrings) - 1))
            (partsStack st),
        subSqlStack := stack\<rparr>"

text \<open>\<^verbatim>\<open>xs[i]\<close> on an array of values.\<close>

definition element :: "jsval list \<Rightarrow> nat \<Rightarrow> jsval" where
  "element xs i = (if i < length xs then xs ! i else JUndefined)"

text \<open>The strings of an array whose elements are all strings.\<close>

fun as_strings :: "jsval list \<Rightarrow> string list option" where
  "as_strings [] = Some []"
| "as_strings (JStr s # xs) = map_option ((#) s) (as_strings xs)"
| "as_strings (x # xs) = None"

text \<open>Line 143, \<^verbatim>\<open>inlineSubSqls.concat(subSqlStack)\<close>. An array gives the longer array.
  \<^verbatim>\<open>undefined\<close> and \<^verbatim>\<open>null\<close> have no property, and a boolean, a number, a bigint, a
  symbol, a function and an object without an own \<^verbatim>\<open>concat\<close> have no method of that name:
  the call throws. A string has one, and so may an object: the stack is no array of slot
  values afterwards.\<close>

definition concat_onto :: "jsval \<Rightarrow> jsval list \<Rightarrow> error + jsval list" where
  "concat_onto inlineSubSqls stack =
     (case inlineSubSqls of
        JArray vals \<Rightarrow> Inr (vals @ stack)
      | JStr s \<Rightarrow> Inl Unmodelled
      | JObject props \<Rightarrow>
          (case map_of props ''concat'' of
             Some (JFunction r) \<Rightarrow> Inl Unmodelled
           | _ \<Rightarrow> Inl TypeError)
      | _ \<Rightarrow> Inl TypeError)"

text \<open>The array branch, lines 129 to 143, on the elements of the array that the callback
  returned. \<^verbatim>\<open>inlineStrings\<close> is its first element and \<^verbatim>\<open>inlineSubSqls\<close> its second,
  \<^verbatim>\<open>undefined\<close> when the array is shorter.
  \<^item> \<^verbatim>\<open>undefined\<close> or \<^verbatim>\<open>null\<close>: line 132 reads a property of it and throws.
  \<^item> A boolean, a number, a bigint or a symbol: \<^verbatim>\<open>[0]\<close> and \<^verbatim>\<open>.length\<close> are
    \<^verbatim>\<open>undefined\<close>, so line 134 does not continue, and \<^verbatim>\<open>.slice\<close> of line 142 is no
    function: the call throws.
  \<^item> A string of one code unit: line 132 adds it to the last output segment, its length is
    1 and line 134 continues. Another string makes \<^verbatim>\<open>partsStack\<close> a string in line 142;
    line 143 throws all the same when \<^verbatim>\<open>inlineSubSqls\<close> has no \<^verbatim>\<open>concat\<close>.
  \<^item> An array of strings: the splice.
  \<^item> An array with an element that is no string, an object or a function: not described.\<close>

definition splice_array :: "loop_state \<Rightarrow> jsval list \<Rightarrow> jsval list \<Rightarrow> error + loop_state" where
  "splice_array st result rest =
     (case element result 0 of
        JUndefined \<Rightarrow> Inl TypeError
      | JNull \<Rightarrow> Inl TypeError
      | JBool b \<Rightarrow> Inl TypeError
      | JNum x \<Rightarrow> Inl TypeError
      | JBigInt i \<Rightarrow> Inl TypeError
      | JSymbol \<Rightarrow> Inl TypeError
      | JStr s \<Rightarrow>
          if length s = 1
          then Inr (merge_first st (Text s) rest)
          else (case concat_onto (element result 1) rest of
                  Inl TypeError \<Rightarrow> Inl TypeError
                | _ \<Rightarrow> Inl Unmodelled)
      | JArray xs \<Rightarrow>
          (case as_strings xs of
             None \<Rightarrow> Inl Unmodelled
           | Some inlineStrings \<Rightarrow>
               if length inlineStrings = 1
               then Inr (merge_first st (at_index inlineStrings 0) rest)
               else (case concat_onto (element result 1) rest of
                       Inl e \<Rightarrow> Inl e
                     | Inr stack \<Rightarrow> Inr (splice st inlineStrings stack)))
      | JObject props \<Rightarrow> Inl Unmodelled
      | JFunction r \<Rightarrow> Inl Unmodelled)"

text \<open>The callback branch, lines 117 to 147, on the value \<^verbatim>\<open>result\<close> that the callback
  returned.\<close>

definition callback_branch :: "loop_state \<Rightarrow> jsval \<Rightarrow> jsval list \<Rightarrow> error + loop_state" where
  "callback_branch st result rest =
     (if falsy result then Inr (fuse_next st rest)
      else if isSQLLiteral result then insert_literal st result rest
      else
        (case isSQLParameter result of
           Inl e \<Rightarrow> Inl e
         | Inr isParameter \<Rightarrow>
             if \<not> falsy isParameter then Inr (bind_parameter st result rest)
             else
               (case result of
                  JArray elements \<Rightarrow> splice_array st elements rest
                | _ \<Rightarrow>
                    if converts_to_string result
                    then Inl (InvalidFunctionParameterResult result)
                    else Inl TypeError)))"

text \<open>One iteration of the \<^verbatim>\<open>while\<close> loop (lines 102 to 151). The message of line 150 is
  built with \<^verbatim>\<open>JSON.stringify\<close>, the one of line 146 with a template literal.\<close>

definition sql_body :: "loop_state \<Rightarrow> error + loop_state" where
  "sql_body st =
     (let (subSql, rest) = shift_value (subSqlStack st)
      in if subSql = JUndefined then Inr (fuse_next st rest)
         else if isSQLLiteral subSql then insert_literal st subSql rest
         else
           (case isSQLParameter subSql of
              Inl e \<Rightarrow> Inl e
            | Inr isParameter \<Rightarrow>
                if \<not> falsy isParameter then Inr (bind_parameter st subSql rest)
                else
                  (case subSql of
                     JFunction result \<Rightarrow> callback_branch st result rest
                   | _ \<Rightarrow>
                       (case JSON_stringify subSql of
                          Inl e \<Rightarrow> Inl e
                        | Inr message \<Rightarrow> Inl (InvalidParameter subSql)))))"

text \<open>The loop ends: every iteration removes the first slot value, and a callback's
  template puts back only slot values that were inside the callback.\<close>

fun weight :: "jsval \<Rightarrow> nat" where
  "weight (JFunction r) = Suc (weight r)"
| "weight (JArray xs) = Suc (sum_list (map weight xs))"
| "weight v = 1"

definition pending :: "loop_state \<Rightarrow> nat" where
  "pending st = sum_list (map weight (subSqlStack st))"

lemma subSqlStack_fuse_next [simp]: "subSqlStack (fuse_next st rest) = rest"
  by (simp add: fuse_next_def split: prod.splits)

lemma subSqlStack_insert_literal [simp]:
  "insert_literal st v rest = Inr st' \<Longrightarrow> subSqlStack st' = rest"
  by (auto simp: insert_literal_def Let_def split: prod.splits sum.splits)

lemma subSqlStack_bind_parameter [simp]: "subSqlStack (bind_parameter st v rest) = rest"
  by (simp add: bind_parameter_def split: prod.splits)

lemma subSqlStack_merge_first [simp]: "subSqlStack (merge_first st x rest) = rest"
  by (simp add: merge_first_def)

lemma subSqlStack_splice [simp]: "subSqlStack (splice st strs stack) = stack"
  by (simp add: splice_def)

lemma weight_pos: "0 < weight v"
  by (cases v) simp_all

lemma weight_element: "sum_list (map weight xs) \<ge> weight (element xs i) - 1"
proof (cases "i < length xs")
  case True
  then have "xs ! i \<in> set xs" by simp
  then have "weight (xs ! i) \<le> sum_list (map weight xs)"
    by (simp add: member_le_sum_list)
  with True show ?thesis by (simp add: element_def)
next
  case False
  then show ?thesis by (simp add: element_def)
qed

lemma concat_onto_weight:
  assumes "concat_onto (element xs i) rest = Inr stack"
  shows "sum_list (map weight stack) < Suc (sum_list (map weight xs) + sum_list (map weight rest))"
proof -
  from assms obtain vals where e: "element xs i = JArray vals" and s: "stack = vals @ rest"
    by (auto simp: concat_onto_def split: jsval.splits option.splits)
  from weight_element [of xs i] e have "sum_list (map weight vals) \<le> sum_list (map weight xs)"
    by simp
  with s show ?thesis by simp
qed

lemma splice_array_decreases:
  assumes "splice_array st xs rest = Inr st'"
  shows "pending st' < Suc (Suc (sum_list (map weight xs) + sum_list (map weight rest)))"
  using assms concat_onto_weight [of xs 1 rest]
  by (auto simp: splice_array_def pending_def
        split: jsval.splits if_splits option.splits sum.splits error.splits)

lemma sql_body_decreases:
  assumes "subSqlStack st \<noteq> []" and "sql_body st = Inr st'"
  shows "pending st' < pending st"
proof -
  from assms(1) obtain v rest where vs: "subSqlStack st = v # rest"
    by (cases "subSqlStack st") auto
  have "0 < weight v" by (rule weight_pos)
  with assms(2) vs show ?thesis
    by (auto simp: sql_body_def callback_branch_def pending_def
          dest: splice_array_decreases [unfolded pending_def]
          split: if_splits sum.splits jsval.splits)
qed

function sql_loop :: "loop_state \<Rightarrow> error + loop_state" where
  "sql_loop st =
     (if subSqlStack st = [] then Inr st
      else case sql_body st of Inl e \<Rightarrow> Inl e | Inr st' \<Rightarrow> sql_loop st')"
  by pat_completeness auto
termination
  by (relation "measure pending") (auto simp: sql_body_decreases)

declare sql_loop.simps [simp del]

text \<open>Lines 90 to 100 and 154 to 159: the first segment is moved to the output, the loop
  runs, the output segments are joined by the bind marker and trimmed.\<close>

definition init :: "string list \<Rightarrow> jsval list \<Rightarrow> loop_state" where
  "init parts subSqls =
     (let (first, partsStack0) = shift (map Text parts)
      in \<lparr>sqlTemplate = [first], parameters = [], partsStack = partsStack0,
          subSqlStack = subSqls\<rparr>)"

definition finish :: "loop_state \<Rightarrow> sql_query" where
  "finish st =
     (let query = trim (join (sqlTemplate st))
      in if length (parameters st) > 0 then QueryWithParameters query (parameters st)
         else Query query)"

definition sql :: "string list \<Rightarrow> jsval list \<Rightarrow> error + sql_query" where
  "sql parts subSqls =
     (case sql_loop (init parts subSqls) of
        Inl e \<Rightarrow> Inl e
      | Inr st \<Rightarrow> Inr (finish st))"

section \<open>The earlier composer of \<^verbatim>\<open>src/sql/sql.ts\<close>\<close>

text \<open>It differs from the one above in these places: \<^verbatim>\<open>partsStack\<close> keeps the first
  segment; a literal is followed by a space; the callback branch tests and prints the
  callback \<^verbatim>\<open>subSql\<close> where the later version uses \<^verbatim>\<open>result\<close>; the strings of a
  callback's template are taken by destructuring and all of them but the first are put in
  front of \<^verbatim>\<open>partsStack\<close>; both error messages are built by a template literal; and the
  query is \<^verbatim>\<open>partsStack.join('?')\<close>, untrimmed, returned with \<^verbatim>\<open>parameters\<close> in every
  case.\<close>

definition insert_literal_spaced :: "loop_state \<Rightarrow> jsval \<Rightarrow> jsval list \<Rightarrow> error + loop_state" where
  "insert_literal_spaced st lit rest =
     (case JSON_stringify lit of
        Inl e \<Rightarrow> Inl e
      | Inr t \<Rightarrow>
          let rendered = (case t of None \<Rightarrow> ''undefined'' | Some s \<Rightarrow> s);
              (p, ps) = shift (partsStack st)
          in Inr (st\<lparr>sqlTemplate :=
                       add_to_last (sqlTemplate st) (Text (rendered @ '' '' @ to_string p)),
                     partsStack := ps, subSqlStack := rest\<rparr>))"

text \<open>Line 58, \<^verbatim>\<open>const [firstStr, ...restStrs] = result[0]\<close>: the value is iterated. A
  string yields its code units, an array its elements (followed here when they are
  strings); nothing else among the values of this theory is iterable.\<close>

definition iterate_strings :: "jsval \<Rightarrow> error + string list" where
  "iterate_strings v =
     (case v of
        JStr s \<Rightarrow> Inr (map (\<lambda>c. [c]) s)
      | JArray xs \<Rightarrow> (case as_strings xs of None \<Rightarrow> Inl Unmodelled | Some ss \<Rightarrow> Inr ss)
      | _ \<Rightarrow> Inl TypeError)"

definition splice_old :: "loop_state \<Rightarrow> jsval list \<Rightarrow> jsval list \<Rightarrow> error + loop_state" where
  "splice_old st result rest =
     (case iterate_strings (element result 0) of
        Inl e \<Rightarrow> Inl e
      | Inr strings \<Rightarrow>
          let firstStr = at_index strings 0;
              restStrs = drop 1 strings
          in (case concat_onto (element result 1) rest of
                Inl e \<Rightarrow> Inl e
              | Inr stack \<Rightarrow>
                  Inr (st\<lparr>sqlTemplate := add_to_last (sqlTemplate st) firstStr,
                         partsStack := map Text restStrs @ partsStack st,
                         subSqlStack := stack\<rparr>)))"

definition sql_old_body :: "loop_state \<Rightarrow> error + loop_state" where
  "sql_old_body st =
     (let (subSql, rest) = shift_value (subSqlStack st)
      in if subSql = JUndefined then Inr (fuse_next st rest)
         else if isSQLLiteral subSql then insert_literal_spaced st subSql rest
         else
           (case isSQLParameter subSql of
              Inl e \<Rightarrow> Inl e
            | Inr isParameter \<Rightarrow>
                if \<not> falsy isParameter then Inr (bind_parameter st subSql rest)
                else
                  (case subSql of
                     JFunction result \<Rightarrow>
                       if subSql = JUndefined then Inr (fuse_next st rest)
                       else if isSQLLiteral result then insert_literal_spaced st subSql rest
                       else
                         (case isSQLParameter result of
                            Inl e \<Rightarrow> Inl e
                          | Inr isParameter' \<Rightarrow>
                              if \<not> falsy isParameter' then Inr (bind_parameter st result rest)
                              else
                                (case result of
                                   JArray elements \<Rightarrow> splice_old st elements rest
                                 | _ \<Rightarrow>
                                     if converts_to_string result
                                     then Inl (InvalidFunctionParameterResult result)
                                     else Inl TypeError))
                   | _ \<Rightarrow>
                       if converts_to_string subSql then Inl (InvalidParameter subSql)
                       else Inl TypeError)))"

lemma subSqlStack_insert_literal_spaced [simp]:
  "insert_literal_spaced st v rest = Inr st' \<Longrightarrow> subSqlStack st' = rest"
  by (auto simp: insert_literal_spaced_def Let_def split: prod.splits sum.splits)

lemma splice_old_decreases:
  assumes "splice_old st xs rest = Inr st'"
  shows "pending st' < Suc (Suc (sum_list (map weight xs) + sum_list (map weight rest)))"
  using assms concat_onto_weight [of xs 1 rest]
  by (auto simp: splice_old_def pending_def Let_def split: sum.splits)

lemma sql_old_body_decreases:
  assumes "subSqlStack st \<noteq> []" and "sql_old_body st = Inr st'"
  shows "pending st' < pending st"
proof -
  from assms(1) obtain v rest where vs: "subSqlStack st = v # rest"
    by (cases "subSqlStack st") auto
  have "0 < weight v" by (rule weight_pos)
  with assms(2) vs show ?thesis
    by (auto simp: sql_old_body_def pending_def
          dest: splice_old_decreases [unfolded pending_def]
          split: if_splits sum.splits jsval.splits)
qed

function sql_old_loop :: "loop_state \<Rightarrow> error + loop_state" where
  "sql_old_loop st =
     (if subSqlStack st = [] then Inr st
      else case sql_old_body st of Inl e \<Rightarrow> Inl e | Inr st' \<Rightarrow> sql_old_loop st')"
  by pat_completeness auto
termination
  by (relation "measure pending") (auto simp: sql_old_body_decreases)

declare sql_old_loop.simps [simp del]

definition sql_old :: "string list \<Rightarrow> jsval list \<Rightarrow> error + sql_query" where
  "sql_old parts subSqls =
     (case sql_old_loop \<lparr>sqlTemplate = [at_index parts 0], parameters = [],
                         partsStack = map Text parts, subSqlStack = subSqls\<rparr> of
        Inl e \<Rightarrow> Inl e
      | Inr st \<Rightarrow> Inr (QueryWithParameters (join (partsStack st)) (parameters st)))"

section \<open>Notions that the properties are stated with\<close>

subsection \<open>The states of the loop\<close>

text \<open>The state in which the loop tests its condition for the \<open>k\<close>-th time after the
  first, that is, after \<open>k\<close> iterations; \<open>None\<close> when the loop has ended before.\<close>

fun state_after :: "nat \<Rightarrow> loop_state \<Rightarrow> loop_state option" where
  "state_after 0 st = Some st"
| "state_after (Suc k) st =
     (if subSqlStack st = [] then None
      else case sql_body st of Inl e \<Rightarrow> None | Inr st' \<Rightarrow> state_after k st')"

text \<open>\<^verbatim>\<open>sqlTemplate\<close> has one element more than \<^verbatim>\<open>parameters\<close>.\<close>

definition balanced :: "loop_state \<Rightarrow> bool" where
  "balanced st = (length (sqlTemplate st) = Suc (length (parameters st)))"

subsection \<open>Source order of the parameters\<close>

text \<open>A template is well formed when it has one segment more than it has slots, and so
  has every template that a callback of one of its slots returns: an array that a callback
  returns is the pair of an array of strings and an array of slot values, one fewer.\<close>

fun well_formed_slot :: "jsval \<Rightarrow> bool" where
  "well_formed_slot (JFunction (JArray [JArray strings, JArray inlineParams])) =
     (as_strings strings \<noteq> None \<and> length strings = Suc (length inlineParams) \<and>
      list_all well_formed_slot inlineParams)"
| "well_formed_slot (JFunction (JArray xs)) = False"
| "well_formed_slot v = True"

definition well_formed_template :: "string list \<Rightarrow> jsval list \<Rightarrow> bool" where
  "well_formed_template parts subSqls =
     (length parts = Suc (length subSqls) \<and> list_all well_formed_slot subSqls)"

text \<open>The parameters that a slot contributes, read from left to right in the source text
  of the template: the slot value itself, the value its callback returns, or the
  parameters of the slots of the template its callback returns, in their order.\<close>

fun source_parameters :: "jsval \<Rightarrow> jsval list" where
  "source_parameters (JFunction (JArray [JArray strings, JArray inlineParams])) =
     concat (map source_parameters inlineParams)"
| "source_parameters (JFunction result) = (if recognized result then [result] else [])"
| "source_parameters subSql = (if recognized subSql then [subSql] else [])"

text \<open>The list of the \<^verbatim>\<open>parameters\<close> field, empty when the field is absent.\<close>

definition parameters_list :: "sql_query \<Rightarrow> jsval list" where
  "parameters_list r = (case parameters_field r of None \<Rightarrow> [] | Some ps \<Rightarrow> ps)"

text \<open>A slot value that no branch of the loop body rejects.\<close>

fun accepted :: "jsval \<Rightarrow> bool" where
  "accepted (JFunction (JArray [JArray strings, JArray inlineParams])) =
     (as_strings strings \<noteq> None \<and> list_all accepted inlineParams)"
| "accepted (JFunction result) = (falsy result \<or> isSQLLiteral result \<or> recognized result)"
| "accepted subSql = (subSql = JUndefined \<or> isSQLLiteral subSql \<or> recognized subSql)"

text \<open>The parameters bound so far, followed by those that the pending slots will
  contribute.\<close>

definition pending_parameters :: "loop_state \<Rightarrow> jsval list" where
  "pending_parameters st = parameters st @ concat (map source_parameters (subSqlStack st))"

text \<open>The test of three levels of nesting: the parameters \<^verbatim>\<open>VARCHAR('a')\<close>,
  \<^verbatim>\<open>VARCHAR('b')\<close> and \<^verbatim>\<open>CHAR('z')\<close> sit at depths two, two and four.\<close>

definition nested_example :: "jsval list" where
  "nested_example =
     [JFunction (InlineSQLResult ['''', '''']
        [JFunction (InlineSQLResult ['''', ''''] [VARCHAR ''a''])]),
      JFunction (InlineSQLResult [''WHERE '', '''']
        [JFunction (InlineSQLResult ['''', '' = '', '' AND '', '''']
           [VARCHAR ''b'', JStr ''a'',
            JFunction (InlineSQLResult ['''', '' = '', '''']
              [JStr ''z'', JFunction (InlineSQLResult ['''', ''''] [CHAR_tag ''z''])])])])]"

text \<open>An iteration leaves \<^verbatim>\<open>parameters\<close> and the length of \<^verbatim>\<open>sqlTemplate\<close> as they are,
  or it adds one recognized value to the first and one segment to the second.\<close>

definition same_output :: "loop_state \<Rightarrow> loop_state \<Rightarrow> bool" where
  "same_output st st' =
     (parameters st' = parameters st \<and> length (sqlTemplate st') = length (sqlTemplate st))"

definition one_more :: "loop_state \<Rightarrow> jsval \<Rightarrow> loop_state \<Rightarrow> bool" where
  "one_more st v st' =
     (recognized v \<and> parameters st' = parameters st @ [v] \<and>
      length (sqlTemplate st') = Suc (length (sqlTemplate st)))"

section \<open>Properties of the composer\<close>

subsection \<open>Shared facts about the loop\<close>

lemma sql_loop_done: "subSqlStack st = [] \<Longrightarrow> sql_loop st = Inr st"
  by (simp add: sql_loop.simps)

lemma sql_loop_step:
  "subSqlStack st \<noteq> [] \<Longrightarrow>
   sql_loop st = (case sql_body st of Inl e \<Rightarrow> Inl e | Inr st' \<Rightarrow> sql_loop st')"
  by (subst sql_loop.simps) simp

text \<open>A property that holds before the loop and that every iteration keeps holds when the
  loop is left.\<close>

lemma sql_loop_invariant:
  assumes "sql_loop st = Inr st'" and "P st"
    and step: "\<And>s s'. P s \<Longrightarrow> subSqlStack s \<noteq> [] \<Longrightarrow> sql_body s = Inr s' \<Longrightarrow> P s'"
  shows "P st'"
  using assms(1,2)
proof (induction st rule: sql_loop.induct)
  case (1 st)
  show ?case
  proof (cases "subSqlStack st = []")
    case True
    with "1.prems" show ?thesis by (simp add: sql_loop_done)
  next
    case False
    with "1.prems"(1) obtain s where s: "sql_body st = Inr s" and l: "sql_loop s = Inr st'"
      by (auto simp: sql_loop_step split: sum.splits)
    from step [OF "1.prems"(2) False s] have "P s" .
    with "1.IH" [OF False s l] show ?thesis .
  qed
qed

lemma sql_loop_abort:
  "sql_body st = Inl e \<Longrightarrow> subSqlStack st \<noteq> [] \<Longrightarrow> sql_loop st = Inl e"
  by (simp add: sql_loop_step)

lemma init_eq:
  "init parts subSqls =
   \<lparr>sqlTemplate = [fst (shift (map Text parts))], parameters = [],
    partsStack = snd (shift (map Text parts)), subSqlStack = subSqls\<rparr>"
  by (simp add: init_def split: prod.splits)

lemma sql_first_slot_error:
  assumes "sql_body (init parts (v # rest)) = Inl e"
  shows "sql parts (v # rest) = Inl e"
proof -
  have "subSqlStack (init parts (v # rest)) \<noteq> []"
    by (simp add: init_eq)
  with assms show ?thesis by (simp add: sql_def sql_loop_abort)
qed

lemma state_with_slot:
  assumes "subSqlStack st \<noteq> []"
  obtains tmpl ps parts v rest
  where "st = \<lparr>sqlTemplate = tmpl, parameters = ps, partsStack = parts, subSqlStack = v # rest\<rparr>"
  using assms by (cases st; cases "subSqlStack st") auto

lemma add_to_last_snoc [simp]: "add_to_last (out @ [cur]) y = out @ [js_plus cur y]"
  by (simp add: add_to_last_def)

lemma length_add_to_last [simp]: "length (add_to_last xs y) = length xs"
  by (simp add: add_to_last_def Let_def)

lemmas body_defs =
  sql_body_def callback_branch_def fuse_next_def insert_literal_def bind_parameter_def splice_array_def
  merge_first_def splice_def

subsection \<open>What the recognizers answer\<close>

lemma recognized_object:
  "recognized v \<Longrightarrow> \<exists>props. v = JObject props"
  by (cases v) (simp_all add: recognized_def)

lemma recognized_not_literal: "recognized v \<Longrightarrow> \<not> isSQLLiteral v \<and> \<not> falsy v \<and> v \<noteq> JUndefined"
  by (cases v) (simp_all add: recognized_def isSQLLiteral_def)

lemma show_nat_nonempty: "show_nat n \<noteq> []"
  by (subst show_nat.simps) simp

lemma digits_to_string_nonempty: "digits_to_string s n \<noteq> []"
  by (simp add: digits_to_string_def Let_def show_nat_nonempty)

lemma stringify_number_nonempty: "stringify_number x \<noteq> []"
  by (cases x)
     (simp_all add: stringify_number_def number_to_string_def digits_to_string_nonempty)

lemma literal_has_text:
  "isSQLLiteral L \<Longrightarrow> \<exists>t. JSON_stringify L = Inr (Some t) \<and> t \<noteq> []"
  by (cases L)
     (simp_all add: isSQLLiteral_def JSON_stringify_def stringify_number_nonempty quote_def)

subsection \<open>What one iteration does with each kind of slot value\<close>

lemma sql_body_literal:
  assumes "isSQLLiteral L" and "JSON_stringify L = Inr (Some t)"
  shows "sql_body \<lparr>sqlTemplate = tmpl, parameters = ps, partsStack = parts, subSqlStack = L # rest\<rparr> =
         Inr \<lparr>sqlTemplate = add_to_last tmpl (Text (t @ to_string (fst (shift parts)))),
              parameters = ps, partsStack = snd (shift parts), subSqlStack = rest\<rparr>"
  using assms by (cases L) (auto simp: body_defs isSQLLiteral_def split: prod.splits)

lemma sql_body_omitted:
  assumes "falsy r"
  shows "sql_body \<lparr>sqlTemplate = tmpl, parameters = ps, partsStack = parts, subSqlStack = JFunction r # rest\<rparr> =
         Inr \<lparr>sqlTemplate = add_to_last tmpl (fst (shift parts)),
              parameters = ps, partsStack = snd (shift parts), subSqlStack = rest\<rparr>"
  using assms by (auto simp: body_defs isSQLLiteral_def split: prod.splits)

lemma sql_body_undefined:
  shows "sql_body \<lparr>sqlTemplate = tmpl, parameters = ps, partsStack = parts, subSqlStack = JUndefined # rest\<rparr> =
         Inr \<lparr>sqlTemplate = add_to_last tmpl (fst (shift parts)),
              parameters = ps, partsStack = snd (shift parts), subSqlStack = rest\<rparr>"
  by (auto simp: body_defs isSQLLiteral_def split: prod.splits)

lemma sql_body_parameter:
  assumes "recognized v"
  shows "sql_body \<lparr>sqlTemplate = tmpl, parameters = ps, partsStack = parts, subSqlStack = v # rest\<rparr> =
         Inr \<lparr>sqlTemplate = tmpl @ [fst (shift parts)],
              parameters = ps @ [v], partsStack = snd (shift parts), subSqlStack = rest\<rparr>"
  using assms recognized_not_literal [OF assms]
  by (auto simp: body_defs recognized_def split: prod.splits sum.splits)

lemma sql_body_result_parameter:
  assumes "recognized r"
  shows "sql_body \<lparr>sqlTemplate = tmpl, parameters = ps, partsStack = parts,
                   subSqlStack = JFunction r # rest\<rparr> =
         Inr \<lparr>sqlTemplate = tmpl @ [fst (shift parts)],
              parameters = ps @ [r], partsStack = snd (shift parts), subSqlStack = rest\<rparr>"
  using assms recognized_not_literal [OF assms]
  by (auto simp: body_defs recognized_def isSQLLiteral_def split: prod.splits sum.splits)

lemma splice_array_errors:
  "splice_array st xs rest = Inl e \<Longrightarrow> e = TypeError \<or> e = Unmodelled"
  by (auto simp: splice_array_def concat_onto_def
        split: jsval.splits if_splits option.splits sum.splits error.splits)

lemma insert_literal_errors:
  "isSQLLiteral L \<Longrightarrow> \<exists>st'. insert_literal st L rest = Inr st'"
  using literal_has_text [of L] by (auto simp: insert_literal_def Let_def split: prod.splits)

lemma ser_errors:
  "(ser_property v = Inl e \<longrightarrow> e = TypeError)"
  "(ser_value v' = Inl e \<longrightarrow> e = TypeError)"
  "(ser_elements xs = Inl e \<longrightarrow> e = TypeError)"
  "(ser_members ms = Inl e \<longrightarrow> e = TypeError)"
  by (induction v and v' and xs and ms rule: ser_property_ser_value_ser_elements_ser_members.induct)
     (auto split: option.splits jsval.splits sum.splits)

lemma JSON_stringify_error: "JSON_stringify v = Inl e \<Longrightarrow> e = TypeError"
  by (simp add: JSON_stringify_def ser_errors)

lemma isSQLParameter_error: "isSQLParameter v = Inl e \<Longrightarrow> e = TypeError"
  by (cases v) (auto split: option.splits jsval.splits)

lemma isSQLParameter_function [simp]: "isSQLParameter (JFunction r) = Inr (JBool False)"
  by simp

lemma sql_body_callback:
  "sql_body \<lparr>sqlTemplate = tmpl, parameters = ps, partsStack = parts,
             subSqlStack = JFunction r # rest\<rparr> =
   callback_branch \<lparr>sqlTemplate = tmpl, parameters = ps, partsStack = parts,
                    subSqlStack = JFunction r # rest\<rparr> r rest"
  by (simp add: sql_body_def isSQLLiteral_def)

lemma callback_branch_invalid_result:
  "callback_branch st r rest = Inl (InvalidFunctionParameterResult w) \<longleftrightarrow>
   w = r \<and> \<not> falsy r \<and> \<not> isSQLLiteral r \<and> (\<exists>b. isSQLParameter r = Inr b \<and> falsy b) \<and>
   \<not> isArray r \<and> converts_to_string r"
proof (cases "falsy r \<or> isSQLLiteral r")
  case True
  then show ?thesis
    using insert_literal_errors [of r st rest] by (auto simp: callback_branch_def)
next
  case False
  show ?thesis
  proof (cases "isSQLParameter r")
    case (Inl e)
    with False isSQLParameter_error [OF Inl] show ?thesis
      by (auto simp: callback_branch_def)
  next
    case (Inr b)
    show ?thesis
    proof (cases r)
      case (JArray xs)
      with False Inr splice_array_errors [of st xs rest] show ?thesis
        by (auto simp: callback_branch_def)
    qed (use False Inr in \<open>auto simp: callback_branch_def\<close>)
  qed
qed


lemma sql_body_invalid_result:
  "sql_body \<lparr>sqlTemplate = tmpl, parameters = ps, partsStack = parts,
             subSqlStack = JFunction r # rest\<rparr> = Inl (InvalidFunctionParameterResult w) \<longleftrightarrow>
   w = r \<and> \<not> falsy r \<and> \<not> isSQLLiteral r \<and> (\<exists>b. isSQLParameter r = Inr b \<and> falsy b) \<and>
   \<not> isArray r \<and> converts_to_string r"
  by (simp only: sql_body_callback callback_branch_invalid_result)


lemma fuse_next_output: "same_output st (fuse_next st rest)"
  by (simp add: same_output_def fuse_next_def split: prod.splits)

lemma insert_literal_output: "insert_literal st v rest = Inr st' \<Longrightarrow> same_output st st'"
  by (auto simp: same_output_def insert_literal_def Let_def split: prod.splits sum.splits)

lemma bind_parameter_output: "recognized v \<Longrightarrow> one_more st v (bind_parameter st v rest)"
  by (simp add: one_more_def bind_parameter_def split: prod.splits)

lemma splice_array_output: "splice_array st xs rest = Inr st' \<Longrightarrow> same_output st st'"
  by (auto simp: same_output_def splice_array_def merge_first_def splice_def
        split: jsval.splits if_splits option.splits sum.splits error.splits)

lemma callback_branch_output:
  assumes "callback_branch st r rest = Inr st'"
  shows "same_output st st' \<or> one_more st r st'"
proof (cases "falsy r \<or> isSQLLiteral r")
  case True
  with assms show ?thesis
    by (auto simp: callback_branch_def fuse_next_output dest: insert_literal_output
          split: if_splits)
next
  case False
  show ?thesis
  proof (cases "isSQLParameter r")
    case (Inl e)
    with assms False show ?thesis by (simp add: callback_branch_def)
  next
    case (Inr b)
    show ?thesis
    proof (cases "falsy b")
      case True
      with assms False Inr show ?thesis
        by (cases r) (auto simp: callback_branch_def dest: splice_array_output split: if_splits)
    next
      case f: False
      with Inr have "recognized r" by (simp add: recognized_def)
      with assms False Inr f show ?thesis
        using bind_parameter_output [of r st rest] by (auto simp: callback_branch_def)
    qed
  qed
qed

lemma sql_body_output:
  assumes "sql_body st = Inr st'"
  shows "same_output st st' \<or> (\<exists>v. one_more st v st')"
proof -
  obtain v rest where sh: "shift_value (subSqlStack st) = (v, rest)"
    by (cases "shift_value (subSqlStack st)")
  show ?thesis
  proof (cases "v = JUndefined \<or> isSQLLiteral v")
    case True
    with assms sh show ?thesis
      by (auto simp: sql_body_def fuse_next_output dest: insert_literal_output split: if_splits)
  next
    case False
    show ?thesis
    proof (cases "isSQLParameter v")
      case (Inl e)
      with assms sh False show ?thesis by (simp add: sql_body_def)
    next
      case (Inr b)
      show ?thesis
      proof (cases "falsy b")
        case True
        with assms sh False Inr show ?thesis
          by (cases v)
             (auto simp: sql_body_def dest: callback_branch_output split: sum.splits)
      next
        case f: False
        with Inr have "recognized v" by (simp add: recognized_def)
        with assms sh False Inr f have "one_more st v st'"
          using bind_parameter_output [of v st rest] by (auto simp: sql_body_def)
        then show ?thesis by blast
      qed
    qed
  qed
qed

lemma sql_body_parameters_recognized:
  assumes "sql_body s = Inr s'" and "\<forall>p\<in>set (parameters s). recognized p"
  shows "\<forall>p\<in>set (parameters s'). recognized p"
  using sql_body_output [OF assms(1)] assms(2)
  by (auto simp: same_output_def one_more_def)

subsection \<open>Templates without slots\<close>

text \<open>
  Claim C5. A template with no slot composes to \<^verbatim>\<open>{ query }\<close>, where the query is the
  first segment with the white space at both ends removed, and the object has no
  \<^verbatim>\<open>parameters\<close> field. Whenever a composition returns a \<^verbatim>\<open>parameters\<close> field, the
  list is not empty and each of its elements was recognized as a parameter.
\<close>

theorem zero_slots_query_trimmed:
  "sql (segment0 # others) [] = Inr (Query (trim segment0)) \<and>
   parameters_field (Query (trim segment0)) = None \<and>
   (\<forall>parts subSqls q ps. sql parts subSqls = Inr (QueryWithParameters q ps) \<longrightarrow>
      ps \<noteq> [] \<and> (\<forall>p\<in>set ps. recognized p))"
proof (intro conjI allI impI)
  show "sql (segment0 # others) [] = Inr (Query (trim segment0))"
    by (simp add: sql_def init_def finish_def sql_loop_done)
  show "parameters_field (Query (trim segment0)) = None" by simp
next
  fix parts subSqls q ps
  assume r: "sql parts subSqls = Inr (QueryWithParameters q ps)"
  then obtain st where l: "sql_loop (init parts subSqls) = Inr st"
    and f: "finish st = QueryWithParameters q ps"
    by (auto simp: sql_def split: sum.splits)
  from f have ps: "ps = parameters st" and ne: "parameters st \<noteq> []"
    by (auto simp: finish_def Let_def split: if_splits)
  have "\<forall>p\<in>set (parameters st). recognized p"
    by (rule sql_loop_invariant
          [OF l, where P = "\<lambda>s. \<forall>p\<in>set (parameters s). recognized p"])
       (simp_all add: init_def sql_body_parameters_recognized split: prod.splits)
  with ps ne show "ps \<noteq> []" and "\<forall>p\<in>set ps. recognized p" by simp_all
qed

theorem zero_slots_query_trimmed_witness:
  "sql [''  SELECT * FROM table ''] [] = Inr (Query ''SELECT * FROM table'') \<and>
   sql [''SELECT '', ''''] [CHAR_tag ''a''] =
     Inr (QueryWithParameters ''SELECT ?'' [CHAR_tag ''a'']) \<and>
   [CHAR_tag ''a''] \<noteq> [] \<and> recognized (CHAR_tag ''a'') \<and>
   isSQLParameter (CHAR_tag ''a'') = Inr (JBool True)"
proof -
  have t: "trim ''  SELECT * FROM table '' = ''SELECT * FROM table''"
    by (simp add: trim_def is_space_def)
  have e: "sql [''SELECT '', ''''] [CHAR_tag ''a''] =
      Inr (QueryWithParameters ''SELECT ?'' [CHAR_tag ''a''])"
    by code_simp
  have i: "isSQLParameter (CHAR_tag ''a'') = Inr (JBool True)" by code_simp
  from zero_slots_query_trimmed [of "''  SELECT * FROM table ''" "[]"] t e i
  show ?thesis by fastforce
qed

subsection \<open>Falsy values\<close>

text \<open>
  Claim C3. The slot value \<^verbatim>\<open>false\<close> is a literal: the text \<^verbatim>\<open>false\<close> and the next
  segment are added to the last output segment. A callback that returns \<^verbatim>\<open>false\<close>,
  \<^verbatim>\<open>null\<close> or the empty string adds the next segment alone: no text of its own, no
  new output segment, no parameter. \<^verbatim>\<open>undefined\<close> is left out both as a slot value and
  as the value a callback returns. All of this holds in every state of the loop.
\<close>

theorem falsy_slot_rendered_falsy_result_omitted:
  "sql_body \<lparr>sqlTemplate = out @ [cur], parameters = ps, partsStack = parts,
             subSqlStack = JBool False # rest\<rparr> =
   Inr \<lparr>sqlTemplate = out @ [js_plus cur (Text (''false'' @ to_string (fst (shift parts))))],
        parameters = ps, partsStack = snd (shift parts), subSqlStack = rest\<rparr> \<and>
   (\<forall>r\<in>{JBool False, JNull, JStr [], JUndefined}.
      sql_body \<lparr>sqlTemplate = out @ [cur], parameters = ps, partsStack = parts,
                subSqlStack = JFunction r # rest\<rparr> =
      Inr \<lparr>sqlTemplate = out @ [js_plus cur (fst (shift parts))], parameters = ps,
           partsStack = snd (shift parts), subSqlStack = rest\<rparr>) \<and>
   sql_body \<lparr>sqlTemplate = out @ [cur], parameters = ps, partsStack = parts,
             subSqlStack = JUndefined # rest\<rparr> =
   Inr \<lparr>sqlTemplate = out @ [js_plus cur (fst (shift parts))], parameters = ps,
        partsStack = snd (shift parts), subSqlStack = rest\<rparr> \<and>
   js_plus (Text a) (Text b) = Text (a @ b)"
proof (intro conjI ballI)
  have "isSQLLiteral (JBool False)" by (simp add: isSQLLiteral_def)
  moreover have "JSON_stringify (JBool False) = Inr (Some ''false'')"
    by (simp add: JSON_stringify_def)
  ultimately show "sql_body \<lparr>sqlTemplate = out @ [cur], parameters = ps, partsStack = parts,
             subSqlStack = JBool False # rest\<rparr> =
   Inr \<lparr>sqlTemplate = out @ [js_plus cur (Text (''false'' @ to_string (fst (shift parts))))],
        parameters = ps, partsStack = snd (shift parts), subSqlStack = rest\<rparr>"
    by (simp add: sql_body_literal)
next
  fix r assume "r \<in> {JBool False, JNull, JStr [], JUndefined}"
  then have "falsy r" by auto
  then show "sql_body \<lparr>sqlTemplate = out @ [cur], parameters = ps, partsStack = parts,
                subSqlStack = JFunction r # rest\<rparr> =
      Inr \<lparr>sqlTemplate = out @ [js_plus cur (fst (shift parts))], parameters = ps,
           partsStack = snd (shift parts), subSqlStack = rest\<rparr>"
    by (simp add: sql_body_omitted)
qed (simp_all add: sql_body_undefined)

theorem falsy_slot_rendered_falsy_result_omitted_witness:
  "JNull \<in> {JBool False, JNull, JStr [], JUndefined} \<and>
   sql_body \<lparr>sqlTemplate = [Text ''A''], parameters = [], partsStack = [Text ''B''],
             subSqlStack = [JFunction JNull]\<rparr> =
   Inr \<lparr>sqlTemplate = [Text ''AB''], parameters = [], partsStack = [], subSqlStack = []\<rparr> \<and>
   sql_body \<lparr>sqlTemplate = [Text ''A''], parameters = [], partsStack = [Text ''B''],
             subSqlStack = [JBool False]\<rparr> =
   Inr \<lparr>sqlTemplate = [Text ''AfalseB''], parameters = [], partsStack = [],
        subSqlStack = []\<rparr> \<and>
   sql [''A'', ''B''] [JBool False] = Inr (Query ''AfalseB'') \<and>
   sql [''A'', ''B''] [JFunction (JBool False)] = Inr (Query ''AB'') \<and>
   sql [''A'', ''B''] [JFunction JNull] = Inr (Query ''AB'') \<and>
   sql [''A'', ''B''] [JFunction (JStr [])] = Inr (Query ''AB'') \<and>
   sql [''A'', ''B''] [JFunction JUndefined] = Inr (Query ''AB'') \<and>
   sql [''A'', ''B''] [JUndefined] = Inr (Query ''AB'')"
proof -
  have e: "sql [''A'', ''B''] [JBool False] = Inr (Query ''AfalseB'')"
    "sql [''A'', ''B''] [JFunction (JBool False)] = Inr (Query ''AB'')"
    "sql [''A'', ''B''] [JFunction JNull] = Inr (Query ''AB'')"
    "sql [''A'', ''B''] [JFunction (JStr [])] = Inr (Query ''AB'')"
    "sql [''A'', ''B''] [JFunction JUndefined] = Inr (Query ''AB'')"
    "sql [''A'', ''B''] [JUndefined] = Inr (Query ''AB'')"
    by code_simp+
  from falsy_slot_rendered_falsy_result_omitted
    [of "[]" "Text ''A''" "[]" "[Text ''B'']" "[]"] e
  show ?thesis by simp
qed

subsection \<open>Order of the parameters\<close>

lemma as_strings_length: "as_strings xs = Some ss \<Longrightarrow> length ss = length xs"
proof (induction xs arbitrary: ss)
  case Nil
  then show ?case by simp
next
  case (Cons x xs)
  then show ?case by (cases x) auto
qed

lemma as_strings_map [simp]: "as_strings (map JStr strings) = Some strings"
  by (induction strings) simp_all

lemma well_formed_array:
  assumes "well_formed_slot (JFunction (JArray xs))"
  obtains strings inlineParams ss
  where "xs = [JArray strings, JArray inlineParams]" and "as_strings strings = Some ss"
    and "length ss = Suc (length inlineParams)" and "list_all well_formed_slot inlineParams"
proof -
  from assms obtain strings inlineParams where xs: "xs = [JArray strings, JArray inlineParams]"
    by (rule well_formed_slot.elims) auto
  with assms obtain ss where ss: "as_strings strings = Some ss" by auto
  from assms xs as_strings_length [OF ss] have "length ss = Suc (length inlineParams)"
    and "list_all well_formed_slot inlineParams" by simp_all
  with xs ss that show ?thesis by blast
qed

lemma source_parameters_unrecognized:
  "\<not> recognized v \<Longrightarrow> \<not> isArray v \<Longrightarrow> source_parameters (JFunction v) = []"
  by (cases v) simp_all

lemma source_parameters_slot:
  "typeof v \<noteq> TFunction \<Longrightarrow> source_parameters v = (if recognized v then [v] else [])"
  by (cases v) simp_all

lemma source_parameters_result:
  "recognized r \<Longrightarrow> source_parameters (JFunction r) = [r]"
  using recognized_object [of r] by auto

lemma callback_branch_source_order:
  assumes "callback_branch st r rest = Inr st'"
    and "well_formed_slot (JFunction r)" and "list_all well_formed_slot rest"
  shows "list_all well_formed_slot (subSqlStack st') \<and>
         parameters st' @ concat (map source_parameters (subSqlStack st')) =
         parameters st @ source_parameters (JFunction r) @ concat (map source_parameters rest)"
proof (cases "falsy r \<or> isSQLLiteral r")
  case True
  then have n: "\<not> recognized r" "\<not> isArray r"
    using recognized_not_literal [of r] by (cases r; auto simp: isSQLLiteral_def)+
  from True assms(1) have "subSqlStack st' = rest \<and> parameters st' = parameters st"
    using insert_literal_output [of st r rest st']
    by (auto simp: callback_branch_def fuse_next_def same_output_def
          split: if_splits prod.splits)
  with assms(3) source_parameters_unrecognized [OF n] show ?thesis by simp
next
  case False
  show ?thesis
  proof (cases "isSQLParameter r")
    case (Inl e)
    with assms(1) False show ?thesis by (simp add: callback_branch_def)
  next
    case (Inr b)
    show ?thesis
    proof (cases "falsy b")
      case f: False
      with Inr have rec: "recognized r" by (simp add: recognized_def)
      from assms(1) False Inr f have "st' = bind_parameter st r rest"
        by (simp add: callback_branch_def)
      then have "subSqlStack st' = rest \<and> parameters st' = parameters st @ [r]"
        by (simp add: bind_parameter_def split: prod.splits)
      with assms(3) source_parameters_result [OF rec] show ?thesis by simp
    next
      case True
      with Inr have nrec: "\<not> recognized r" by (simp add: recognized_def)
      show ?thesis
      proof (cases r)
        case (JArray xs)
        from assms(2) JArray obtain strings inlineParams ss
          where xs: "xs = [JArray strings, JArray inlineParams]"
            and ss: "as_strings strings = Some ss"
            and len: "length ss = Suc (length inlineParams)"
            and wf: "list_all well_formed_slot inlineParams"
          by (auto elim: well_formed_array)
        from assms(1) False Inr True JArray have sp: "splice_array st xs rest = Inr st'"
          by (simp add: callback_branch_def)
        have src: "source_parameters (JFunction r) = concat (map source_parameters inlineParams)"
          by (simp add: JArray xs)
        show ?thesis
        proof (cases "length ss = 1")
          case one: True
          with len have "inlineParams = []" by simp
          moreover from sp xs ss one
          have "subSqlStack st' = rest \<and> parameters st' = parameters st"
            by (auto simp: splice_array_def element_def merge_first_def)
          ultimately show ?thesis using assms(3) src by simp
        next
          case more: False
          with sp xs ss
          have "subSqlStack st' = inlineParams @ rest \<and> parameters st' = parameters st"
            by (auto simp: splice_array_def element_def concat_onto_def splice_def)
          with assms(3) wf src show ?thesis by simp
        qed
      qed (use assms(1) False Inr True in \<open>auto simp: callback_branch_def split: if_splits\<close>)
    qed
  qed
qed

lemma sql_body_source_order:
  assumes "sql_body s = Inr s'" and "subSqlStack s \<noteq> []"
    and "list_all well_formed_slot (subSqlStack s)"
  shows "list_all well_formed_slot (subSqlStack s') \<and>
         pending_parameters s' = pending_parameters s"
proof -
  from assms(2) obtain tmpl ps parts v rest where s: "s = \<lparr>sqlTemplate = tmpl, parameters = ps,
      partsStack = parts, subSqlStack = v # rest\<rparr>"
    by (rule state_with_slot)
  from assms(3) s have wfv: "well_formed_slot v" and wfr: "list_all well_formed_slot rest"
    by simp_all
  show ?thesis
  proof (cases v)
    case (JFunction r)
    from assms(1) s JFunction have "callback_branch s r rest = Inr s'"
      by (simp add: sql_body_callback)
    from callback_branch_source_order [OF this] wfv wfr JFunction s show ?thesis
      by (simp add: pending_parameters_def)
  next
    case (JObject props)
    show ?thesis
    proof (cases "recognized v")
      case True
      from assms(1) sql_body_parameter [OF True, of tmpl ps parts rest] s wfr True JObject
      show ?thesis by (auto simp: pending_parameters_def)
    next
      case False
      with assms(1) s JObject show ?thesis
        by (auto simp: sql_body_def recognized_def isSQLLiteral_def split: sum.splits)
    qed
  qed (use assms(1) s wfr in \<open>auto simp: sql_body_def pending_parameters_def isSQLLiteral_def
          fuse_next_def recognized_def dest: insert_literal_output [unfolded same_output_def]
          split: sum.splits prod.splits\<close>)
qed

lemma accepted_array:
  assumes "accepted (JFunction (JArray xs))"
  obtains strings inlineParams ss
  where "xs = [JArray strings, JArray inlineParams]" and "as_strings strings = Some ss"
    and "list_all accepted inlineParams"
proof -
  from assms obtain strings inlineParams where xs: "xs = [JArray strings, JArray inlineParams]"
    by (rule accepted.elims) (auto simp: isSQLLiteral_def recognized_def)
  with assms obtain ss where "as_strings strings = Some ss"
    and "list_all accepted inlineParams" by auto
  with xs that show ?thesis by blast
qed

lemma accepted_result:
  "\<not> isArray r \<Longrightarrow> accepted (JFunction r) = (falsy r \<or> isSQLLiteral r \<or> recognized r)"
  by (cases r) simp_all

lemma accepted_slot:
  "typeof v \<noteq> TFunction \<Longrightarrow> accepted v = (v = JUndefined \<or> isSQLLiteral v \<or> recognized v)"
  by (cases v) simp_all

lemma callback_branch_accepted:
  assumes "accepted (JFunction r)" and "list_all accepted rest"
  shows "\<exists>st'. callback_branch st r rest = Inr st' \<and> list_all accepted (subSqlStack st')"
proof (cases r)
  case (JArray xs)
  from assms(1) JArray obtain strings inlineParams ss
    where xs: "xs = [JArray strings, JArray inlineParams]"
      and ss: "as_strings strings = Some ss" and acc: "list_all accepted inlineParams"
    by (auto elim: accepted_array)
  with assms(2) JArray show ?thesis
    by (auto simp: callback_branch_def isSQLLiteral_def splice_array_def element_def
          concat_onto_def)
next
  case (JObject props)
  with assms(1) have "recognized r" by (simp add: isSQLLiteral_def)
  with assms(2) recognized_not_literal [OF this] show ?thesis
    by (auto simp: callback_branch_def recognized_def split: sum.splits)
qed (use assms insert_literal_errors [of r st rest] in
      \<open>auto simp: callback_branch_def recognized_def isSQLLiteral_def\<close>)

lemma sql_body_accepted:
  assumes "subSqlStack s \<noteq> []" and "list_all accepted (subSqlStack s)"
  shows "\<exists>s'. sql_body s = Inr s' \<and> list_all accepted (subSqlStack s')"
proof -
  from assms(1) obtain tmpl ps parts v rest where s: "s = \<lparr>sqlTemplate = tmpl, parameters = ps,
      partsStack = parts, subSqlStack = v # rest\<rparr>"
    by (rule state_with_slot)
  from assms(2) s have av: "accepted v" and ar: "list_all accepted rest" by simp_all
  show ?thesis
  proof (cases v)
    case (JFunction r)
    with av ar callback_branch_accepted [of r rest s] s show ?thesis
      by (simp add: sql_body_callback)
  next
    case (JObject props)
    with av have "recognized v" by (simp add: isSQLLiteral_def)
    with ar s sql_body_parameter [OF this, of tmpl ps parts rest] show ?thesis by simp
  qed (use av ar s insert_literal_errors [of v s rest] in
        \<open>auto simp: sql_body_def recognized_def isSQLLiteral_def\<close>)
qed

lemma sql_loop_accepted:
  "list_all accepted (subSqlStack st) \<Longrightarrow> \<exists>st'. sql_loop st = Inr st'"
proof (induction st rule: sql_loop.induct)
  case (1 st)
  show ?case
  proof (cases "subSqlStack st = []")
    case True
    then show ?thesis by (simp add: sql_loop_done)
  next
    case False
    from sql_body_accepted [OF False "1.prems"] obtain s
      where s: "sql_body st = Inr s" and a: "list_all accepted (subSqlStack s)" by blast
    from "1.IH" [OF False s a] False s show ?thesis by (simp add: sql_loop_step)
  qed
qed

lemma sql_loop_state_after:
  "sql_loop st = Inr st' \<Longrightarrow> (\<exists>k. state_after k st = Some st') \<and> subSqlStack st' = []"
proof (induction st rule: sql_loop.induct)
  case (1 st)
  show ?case
  proof (cases "subSqlStack st = []")
    case True
    with "1.prems" have "st' = st" by (simp add: sql_loop_done)
    with True have "state_after 0 st = Some st'" and "subSqlStack st' = []" by simp_all
    then show ?thesis by blast
  next
    case False
    with "1.prems" obtain s where s: "sql_body st = Inr s" and l: "sql_loop s = Inr st'"
      by (auto simp: sql_loop_step split: sum.splits)
    from "1.IH" [OF False s l] obtain k where "state_after k s = Some st'"
      and e: "subSqlStack st' = []" by blast
    with False s have "state_after (Suc k) st = Some st'" by simp
    with e show ?thesis by blast
  qed
qed

lemma sql_loop_source_order:
  assumes "sql_loop st = Inr st'" and "list_all well_formed_slot (subSqlStack st)"
  shows "parameters st' = pending_parameters st"
proof -
  have "list_all well_formed_slot (subSqlStack st') \<and>
        pending_parameters st' = pending_parameters st"
    by (rule sql_loop_invariant
          [OF assms(1), where P = "\<lambda>s. list_all well_formed_slot (subSqlStack s) \<and>
                                       pending_parameters s = pending_parameters st"])
       (use assms(2) sql_body_source_order in auto)
  moreover from sql_loop_state_after [OF assms(1)] have "subSqlStack st' = []" by simp
  ultimately show ?thesis by (simp add: pending_parameters_def)
qed

lemma well_formed_pair [simp]:
  "well_formed_slot (JFunction (InlineSQLResult strings inlineParams)) =
   (length strings = Suc (length inlineParams) \<and> list_all well_formed_slot inlineParams)"
  by (simp add: InlineSQLResult_def)

lemma source_parameters_pair [simp]:
  "source_parameters (JFunction (InlineSQLResult strings inlineParams)) =
   concat (map source_parameters inlineParams)"
  by (simp add: InlineSQLResult_def)

lemma accepted_pair [simp]:
  "accepted (JFunction (InlineSQLResult strings inlineParams)) = list_all accepted inlineParams"
  by (simp add: InlineSQLResult_def)

text \<open>
  Claim C1. For a well-formed template, nested templates included, the parameters of the
  composed output are the parameters of the slots in the order of the source text, each
  callback's template read in place of its slot; so their number is the number of slots
  that resolve to a parameter, at any depth of nesting. A composition whose slot values are
  all of an accepted kind does return an output.
\<close>

theorem parameters_in_source_order:
  "(well_formed_template parts subSqls \<and> sql parts subSqls = Inr r \<longrightarrow>
      parameters_list r = concat (map source_parameters subSqls) \<and>
      length (parameters_list r) = length (concat (map source_parameters subSqls))) \<and>
   (list_all accepted subSqls \<longrightarrow> (\<exists>r. sql parts subSqls = Inr r))"
proof (intro conjI impI)
  assume a: "well_formed_template parts subSqls \<and> sql parts subSqls = Inr r"
  then obtain st where l: "sql_loop (init parts subSqls) = Inr st" and r: "r = finish st"
    by (auto simp: sql_def split: sum.splits)
  from a have "list_all well_formed_slot (subSqlStack (init parts subSqls))"
    by (simp add: well_formed_template_def init_eq)
  from sql_loop_source_order [OF l this]
  have "parameters st = concat (map source_parameters subSqls)"
    by (simp add: pending_parameters_def init_eq)
  moreover have "parameters_list (finish st) = parameters st"
    by (simp add: parameters_list_def finish_def Let_def)
  ultimately show "parameters_list r = concat (map source_parameters subSqls)"
    by (simp add: r)
  then show "length (parameters_list r) = length (concat (map source_parameters subSqls))"
    by simp
next
  assume "list_all accepted subSqls"
  then have "list_all accepted (subSqlStack (init parts subSqls))" by (simp add: init_eq)
  from sql_loop_accepted [OF this] show "\<exists>r. sql parts subSqls = Inr r"
    by (auto simp: sql_def)
qed

theorem parameters_in_source_order_witness:
  "well_formed_template [''SELECT '', '' FROM table '', ''''] nested_example \<and>
   list_all accepted nested_example \<and>
   sql [''SELECT '', '' FROM table '', ''''] nested_example =
     Inr (QueryWithParameters
            (''SELECT ? FROM table WHERE ? = '' @ [CHR 0x22] @ ''a'' @ [CHR 0x22] @ '' AND '' @
             [CHR 0x22] @ ''z'' @ [CHR 0x22] @ '' = ?'')
            [VARCHAR ''a'', VARCHAR ''b'', CHAR_tag ''z'']) \<and>
   concat (map source_parameters nested_example) = [VARCHAR ''a'', VARCHAR ''b'', CHAR_tag ''z'']"
proof -
  have w: "well_formed_template [''SELECT '', '' FROM table '', ''''] nested_example"
    by code_simp
  have a: "list_all accepted nested_example" by code_simp
  have e: "sql [''SELECT '', '' FROM table '', ''''] nested_example =
     Inr (QueryWithParameters
            (''SELECT ? FROM table WHERE ? = '' @ [CHR 0x22] @ ''a'' @ [CHR 0x22] @ '' AND '' @
             [CHR 0x22] @ ''z'' @ [CHR 0x22] @ '' = ?'')
            [VARCHAR ''a'', VARCHAR ''b'', CHAR_tag ''z''])"
    by code_simp
  from parameters_in_source_order
    [of "[''SELECT '', '' FROM table '', '''']" nested_example
        "QueryWithParameters
            (''SELECT ? FROM table WHERE ? = '' @ [CHR 0x22] @ ''a'' @ [CHR 0x22] @ '' AND '' @
             [CHR 0x22] @ ''z'' @ [CHR 0x22] @ '' = ?'')
            [VARCHAR ''a'', VARCHAR ''b'', CHAR_tag ''z'']"] w a e
  show ?thesis by (simp add: parameters_list_def)
qed

subsection \<open>Output segments and parameters\<close>

lemma sql_body_balanced:
  assumes "sql_body s = Inr s'" and "balanced s"
  shows "balanced s'"
  using sql_body_output [OF assms(1)] assms(2)
  by (auto simp: balanced_def same_output_def one_more_def)

lemma state_after_balanced:
  "state_after k st = Some st' \<Longrightarrow> balanced st \<Longrightarrow> balanced st'"
proof (induction k arbitrary: st)
  case 0
  then show ?case by simp
next
  case (Suc k)
  from Suc.prems(1) obtain s where s: "sql_body st = Inr s" and a: "state_after k s = Some st'"
    by (auto split: if_splits sum.splits)
  from sql_body_balanced [OF s Suc.prems(2)] Suc.IH [OF a] show ?case by simp
qed

lemma balanced_init: "balanced (init parts subSqls)"
  by (simp add: init_eq balanced_def)

lemma count_join:
  "count_list (join xs) CHR ''?'' =
   (length xs - 1) + sum_list (map (\<lambda>c. count_list (join_text c) CHR ''?'') xs)"
  by (induction xs rule: join.induct) simp_all

lemma count_dropWhile: "\<not> P c \<Longrightarrow> count_list (dropWhile P s) c = count_list s c"
  by (induction s) auto

lemma count_trim: "\<not> is_space c \<Longrightarrow> count_list (trim s) c = count_list s c"
  by (simp add: trim_def count_dropWhile)

text \<open>
  Claim C9. Whenever the loop tests its condition, at the start of an iteration and when it
  is left, \<^verbatim>\<open>sqlTemplate\<close> has one element more than \<^verbatim>\<open>parameters\<close>. So the join
  writes one bind marker for each parameter: the markers in the query are as many as the
  parameters, plus the question marks that the text of the segments holds already.
\<close>

theorem segments_one_more_than_parameters:
  "(state_after k (init parts subSqls) = Some st \<longrightarrow>
      length (sqlTemplate st) = Suc (length (parameters st))) \<and>
   (sql parts subSqls = Inr r \<longrightarrow>
      (\<exists>k final. state_after k (init parts subSqls) = Some final \<and> subSqlStack final = [] \<and>
         r = finish final \<and>
         length (sqlTemplate final) = Suc (length (parameters final)) \<and>
         length (sqlTemplate final) - 1 = length (parameters final) \<and>
         count_list (query r) CHR ''?'' =
           length (parameters final) +
           sum_list (map (\<lambda>c. count_list (join_text c) CHR ''?'') (sqlTemplate final))))"
proof (intro conjI impI)
  assume "state_after k (init parts subSqls) = Some st"
  from state_after_balanced [OF this balanced_init]
  show "length (sqlTemplate st) = Suc (length (parameters st))"
    by (simp add: balanced_def)
next
  assume "sql parts subSqls = Inr r"
  then obtain final where l: "sql_loop (init parts subSqls) = Inr final" and r: "r = finish final"
    by (auto simp: sql_def split: sum.splits)
  from sql_loop_state_after [OF l] obtain k
    where k: "state_after k (init parts subSqls) = Some final" and e: "subSqlStack final = []"
    by blast
  from state_after_balanced [OF k balanced_init]
  have b: "length (sqlTemplate final) = Suc (length (parameters final))"
    by (simp add: balanced_def)
  have q: "query r = trim (join (sqlTemplate final))"
    by (simp add: r finish_def Let_def)
  have "\<not> is_space CHR ''?''" by (simp add: is_space_def)
  then have "count_list (query r) CHR ''?'' = count_list (join (sqlTemplate final)) CHR ''?''"
    by (simp add: q count_trim)
  with b have "count_list (query r) CHR ''?'' =
           length (parameters final) +
           sum_list (map (\<lambda>c. count_list (join_text c) CHR ''?'') (sqlTemplate final))"
    by (simp add: count_join)
  with k e r b show "\<exists>k final. state_after k (init parts subSqls) = Some final \<and>
         subSqlStack final = [] \<and> r = finish final \<and>
         length (sqlTemplate final) = Suc (length (parameters final)) \<and>
         length (sqlTemplate final) - 1 = length (parameters final) \<and>
         count_list (query r) CHR ''?'' =
           length (parameters final) +
           sum_list (map (\<lambda>c. count_list (join_text c) CHR ''?'') (sqlTemplate final))"
    by (intro exI [of _ k] exI [of _ final]) simp
qed

theorem segments_one_more_than_parameters_witness:
  "state_after 1 (init [''SELECT '', '', '', ''''] [CHAR_tag ''a'', INTEGER (NumInt 1)]) =
     Some \<lparr>sqlTemplate = [Text ''SELECT '', Text '', ''], parameters = [CHAR_tag ''a''],
           partsStack = [Text ''''], subSqlStack = [INTEGER (NumInt 1)]\<rparr> \<and>
   length [Text ''SELECT '', Text '', ''] = Suc (length [CHAR_tag ''a'']) \<and>
   sql [''SELECT '', '', '', ''''] [CHAR_tag ''a'', INTEGER (NumInt 1)] =
     Inr (QueryWithParameters ''SELECT ?, ?'' [CHAR_tag ''a'', INTEGER (NumInt 1)]) \<and>
   count_list ''SELECT ?, ?'' CHR ''?'' = length [CHAR_tag ''a'', INTEGER (NumInt 1)]"
proof -
  have s: "state_after 1 (init [''SELECT '', '', '', ''''] [CHAR_tag ''a'', INTEGER (NumInt 1)]) =
     Some \<lparr>sqlTemplate = [Text ''SELECT '', Text '', ''], parameters = [CHAR_tag ''a''],
           partsStack = [Text ''''], subSqlStack = [INTEGER (NumInt 1)]\<rparr>"
    by code_simp
  have e: "sql [''SELECT '', '', '', ''''] [CHAR_tag ''a'', INTEGER (NumInt 1)] =
     Inr (QueryWithParameters ''SELECT ?, ?'' [CHAR_tag ''a'', INTEGER (NumInt 1)])"
    by code_simp
  from segments_one_more_than_parameters
    [of 1 "[''SELECT '', '', '', '''']" "[CHAR_tag ''a'', INTEGER (NumInt 1)]"
        "\<lparr>sqlTemplate = [Text ''SELECT '', Text '', ''], parameters = [CHAR_tag ''a''],
           partsStack = [Text ''''], subSqlStack = [INTEGER (NumInt 1)]\<rparr>"
        "QueryWithParameters ''SELECT ?, ?'' [CHAR_tag ''a'', INTEGER (NumInt 1)]"] s e
  show ?thesis by simp
qed

subsection \<open>The two composers\<close>

lemma sql_old_body_literal:
  assumes "isSQLLiteral L" and "JSON_stringify L = Inr (Some t)"
  shows "sql_old_body \<lparr>sqlTemplate = tmpl, parameters = ps, partsStack = parts,
                       subSqlStack = L # rest\<rparr> =
         Inr \<lparr>sqlTemplate = add_to_last tmpl (Text (t @ '' '' @ to_string (fst (shift parts)))),
              parameters = ps, partsStack = snd (shift parts), subSqlStack = rest\<rparr>"
  using assms
  by (cases L) (auto simp: sql_old_body_def insert_literal_spaced_def isSQLLiteral_def
                 split: prod.splits)

text \<open>
  Claim C8. The two composers are not equivalent. On the template \<^verbatim>\<open>SELECT ${1} FROM t\<close>
  the earlier one returns the query \<^verbatim>\<open> FROM t\<close> with an empty parameter list, the later
  one returns \<^verbatim>\<open>SELECT 1 FROM t\<close> and no parameter list. In the iteration for a literal
  the earlier one writes a space between the text of the literal and the next segment, the
  later one writes the two side by side. (The earlier one builds its query from
  \<^verbatim>\<open>partsStack\<close>, so the space is in its output segment and not in the query it returns.)
\<close>

theorem composers_differ:
  "sql_old [''SELECT '', '' FROM t''] [JNum (NumInt 1)] =
     Inr (QueryWithParameters '' FROM t'' []) \<and>
   sql [''SELECT '', '' FROM t''] [JNum (NumInt 1)] = Inr (Query ''SELECT 1 FROM t'') \<and>
   sql_old [''SELECT '', '' FROM t''] [JNum (NumInt 1)] \<noteq>
     sql [''SELECT '', '' FROM t''] [JNum (NumInt 1)] \<and>
   (isSQLLiteral L \<longrightarrow>
      (\<exists>t. JSON_stringify L = Inr (Some t) \<and>
         sql_old_body \<lparr>sqlTemplate = out @ [Text seg], parameters = ps,
                       partsStack = Text next # parts, subSqlStack = L # rest\<rparr> =
         Inr \<lparr>sqlTemplate = out @ [Text (seg @ t @ '' '' @ next)], parameters = ps,
              partsStack = parts, subSqlStack = rest\<rparr> \<and>
         sql_body \<lparr>sqlTemplate = out @ [Text seg], parameters = ps,
                   partsStack = Text next # parts, subSqlStack = L # rest\<rparr> =
         Inr \<lparr>sqlTemplate = out @ [Text (seg @ t @ next)], parameters = ps,
              partsStack = parts, subSqlStack = rest\<rparr>))"
proof (intro conjI impI)
  show o: "sql_old [''SELECT '', '' FROM t''] [JNum (NumInt 1)] =
     Inr (QueryWithParameters '' FROM t'' [])"
    by code_simp
  show n: "sql [''SELECT '', '' FROM t''] [JNum (NumInt 1)] = Inr (Query ''SELECT 1 FROM t'')"
    by code_simp
  show "sql_old [''SELECT '', '' FROM t''] [JNum (NumInt 1)] \<noteq>
     sql [''SELECT '', '' FROM t''] [JNum (NumInt 1)]"
    unfolding o n by simp
next
  assume l: "isSQLLiteral L"
  then obtain t where t: "JSON_stringify L = Inr (Some t)"
    using literal_has_text by blast
  with l show "\<exists>t. JSON_stringify L = Inr (Some t) \<and>
         sql_old_body \<lparr>sqlTemplate = out @ [Text seg], parameters = ps,
                       partsStack = Text next # parts, subSqlStack = L # rest\<rparr> =
         Inr \<lparr>sqlTemplate = out @ [Text (seg @ t @ '' '' @ next)], parameters = ps,
              partsStack = parts, subSqlStack = rest\<rparr> \<and>
         sql_body \<lparr>sqlTemplate = out @ [Text seg], parameters = ps,
                   partsStack = Text next # parts, subSqlStack = L # rest\<rparr> =
         Inr \<lparr>sqlTemplate = out @ [Text (seg @ t @ next)], parameters = ps,
              partsStack = parts, subSqlStack = rest\<rparr>"
    by (simp add: sql_body_literal sql_old_body_literal)
qed

theorem composers_differ_witness:
  "isSQLLiteral (JBool True) \<and>
   sql_old_body \<lparr>sqlTemplate = [Text ''a = ''], parameters = [],
                 partsStack = [Text '';''], subSqlStack = [JBool True]\<rparr> =
   Inr \<lparr>sqlTemplate = [Text ''a = true ;''], parameters = [], partsStack = [],
        subSqlStack = []\<rparr> \<and>
   sql_body \<lparr>sqlTemplate = [Text ''a = ''], parameters = [],
             partsStack = [Text '';''], subSqlStack = [JBool True]\<rparr> =
   Inr \<lparr>sqlTemplate = [Text ''a = true;''], parameters = [], partsStack = [],
        subSqlStack = []\<rparr>"
proof -
  have l: "isSQLLiteral (JBool True)" by (simp add: isSQLLiteral_def)
  have j: "JSON_stringify (JBool True) = Inr (Some ''true'')" by (simp add: JSON_stringify_def)
  from composers_differ [of "JBool True" "[]" "''a = ''" "[]" "'';''" "[]" "[]"] l j
  show ?thesis by simp
qed

subsection \<open>Literals\<close>
















lemma falsy_slot_cases:
  "falsy v \<Longrightarrow> v \<noteq> JUndefined \<Longrightarrow> v \<noteq> JBigInt 0 \<Longrightarrow> isSQLLiteral v"
  by (cases v) (simp_all add: isSQLLiteral_def)

lemma sql_body_bigint:
  "sql_body \<lparr>sqlTemplate = tmpl, parameters = ps, partsStack = parts,
             subSqlStack = JBigInt i # rest\<rparr> = Inl TypeError"
  by (simp add: sql_body_def isSQLLiteral_def JSON_stringify_def)

lemma js_plus_text_differs:
  "t \<noteq> [] \<Longrightarrow> js_plus cur (Text (t @ to_string x)) \<noteq> js_plus cur x"
  by (cases cur; cases x) simp_all

text \<open>
  Claim C10. The empty string and the number zero are literals when they are slot values:
  they are written into the query as \<^verbatim>\<open>""\<close> and \<^verbatim>\<open>0\<close>. No falsy slot value other than
  \<^verbatim>\<open>undefined\<close> is left out: each of them is a literal and adds a text that is not empty,
  except the bigint \<^verbatim>\<open>0n\<close>, on which the composition stops with a \<^verbatim>\<open>TypeError\<close>. A falsy
  value is left out only when a callback returned it.
\<close>

theorem falsy_slot_values_are_rendered:
  "isSQLLiteral (JStr []) \<and> isSQLLiteral (JNum (NumInt 0)) \<and>
   sql_body \<lparr>sqlTemplate = out @ [cur], parameters = ps, partsStack = parts,
             subSqlStack = JStr [] # rest\<rparr> =
   Inr \<lparr>sqlTemplate =
          out @ [js_plus cur (Text ([CHR 0x22, CHR 0x22] @ to_string (fst (shift parts))))],
        parameters = ps, partsStack = snd (shift parts), subSqlStack = rest\<rparr> \<and>
   sql_body \<lparr>sqlTemplate = out @ [cur], parameters = ps, partsStack = parts,
             subSqlStack = JNum (NumInt 0) # rest\<rparr> =
   Inr \<lparr>sqlTemplate = out @ [js_plus cur (Text (''0'' @ to_string (fst (shift parts))))],
        parameters = ps, partsStack = snd (shift parts), subSqlStack = rest\<rparr> \<and>
   (falsy v \<and> v \<noteq> JUndefined \<and> v \<noteq> JBigInt 0 \<longrightarrow>
      isSQLLiteral v \<and>
      (\<exists>t. JSON_stringify v = Inr (Some t) \<and> t \<noteq> [] \<and>
         sql_body \<lparr>sqlTemplate = out @ [cur], parameters = ps, partsStack = parts,
                   subSqlStack = v # rest\<rparr> =
         Inr \<lparr>sqlTemplate = out @ [js_plus cur (Text (t @ to_string (fst (shift parts))))],
              parameters = ps, partsStack = snd (shift parts), subSqlStack = rest\<rparr>)) \<and>
   sql_body \<lparr>sqlTemplate = out @ [cur], parameters = ps, partsStack = parts,
             subSqlStack = JBigInt 0 # rest\<rparr> = Inl TypeError \<and>
   (falsy v \<and> v \<noteq> JUndefined \<longrightarrow>
      sql_body \<lparr>sqlTemplate = out @ [cur], parameters = ps, partsStack = parts,
                subSqlStack = v # rest\<rparr> \<noteq>
      Inr \<lparr>sqlTemplate = out @ [js_plus cur (fst (shift parts))], parameters = ps,
           partsStack = snd (shift parts), subSqlStack = rest\<rparr>) \<and>
   (falsy v \<longrightarrow>
      sql_body \<lparr>sqlTemplate = out @ [cur], parameters = ps, partsStack = parts,
                subSqlStack = JFunction v # rest\<rparr> =
      Inr \<lparr>sqlTemplate = out @ [js_plus cur (fst (shift parts))], parameters = ps,
           partsStack = snd (shift parts), subSqlStack = rest\<rparr>)"
proof (intro conjI impI)
  show e: "isSQLLiteral (JStr [])" and z: "isSQLLiteral (JNum (NumInt 0))"
    by (simp_all add: isSQLLiteral_def)
  have "JSON_stringify (JStr []) = Inr (Some [CHR 0x22, CHR 0x22])"
    by (simp add: JSON_stringify_def quote_def)
  with e show "sql_body \<lparr>sqlTemplate = out @ [cur], parameters = ps, partsStack = parts,
             subSqlStack = JStr [] # rest\<rparr> =
   Inr \<lparr>sqlTemplate =
          out @ [js_plus cur (Text ([CHR 0x22, CHR 0x22] @ to_string (fst (shift parts))))],
        parameters = ps, partsStack = snd (shift parts), subSqlStack = rest\<rparr>"
    by (simp add: sql_body_literal)
  have "JSON_stringify (JNum (NumInt 0)) = Inr (Some ''0'')" by code_simp
  with z show "sql_body \<lparr>sqlTemplate = out @ [cur], parameters = ps, partsStack = parts,
             subSqlStack = JNum (NumInt 0) # rest\<rparr> =
   Inr \<lparr>sqlTemplate = out @ [js_plus cur (Text (''0'' @ to_string (fst (shift parts))))],
        parameters = ps, partsStack = snd (shift parts), subSqlStack = rest\<rparr>"
    by (simp add: sql_body_literal)
  show "sql_body \<lparr>sqlTemplate = out @ [cur], parameters = ps, partsStack = parts,
             subSqlStack = JBigInt 0 # rest\<rparr> = Inl TypeError"
    by (rule sql_body_bigint)
next
  assume f: "falsy v \<and> v \<noteq> JUndefined \<and> v \<noteq> JBigInt 0"
  then show l: "isSQLLiteral v" by (simp add: falsy_slot_cases)
  then obtain t where "JSON_stringify v = Inr (Some t)" and "t \<noteq> []"
    using literal_has_text by blast
  with l show "\<exists>t. JSON_stringify v = Inr (Some t) \<and> t \<noteq> [] \<and>
         sql_body \<lparr>sqlTemplate = out @ [cur], parameters = ps, partsStack = parts,
                   subSqlStack = v # rest\<rparr> =
         Inr \<lparr>sqlTemplate = out @ [js_plus cur (Text (t @ to_string (fst (shift parts))))],
              parameters = ps, partsStack = snd (shift parts), subSqlStack = rest\<rparr>"
    by (simp add: sql_body_literal)
next
  assume f: "falsy v \<and> v \<noteq> JUndefined"
  show "sql_body \<lparr>sqlTemplate = out @ [cur], parameters = ps, partsStack = parts,
                subSqlStack = v # rest\<rparr> \<noteq>
      Inr \<lparr>sqlTemplate = out @ [js_plus cur (fst (shift parts))], parameters = ps,
           partsStack = snd (shift parts), subSqlStack = rest\<rparr>"
  proof (cases "v = JBigInt 0")
    case True
    then show ?thesis by (simp add: sql_body_bigint)
  next
    case False
    with f have l: "isSQLLiteral v" by (simp add: falsy_slot_cases)
    then obtain t where "JSON_stringify v = Inr (Some t)" and "t \<noteq> []"
      using literal_has_text by blast
    with l show ?thesis by (simp add: sql_body_literal js_plus_text_differs)
  qed
next
  assume "falsy v"
  then show "sql_body \<lparr>sqlTemplate = out @ [cur], parameters = ps, partsStack = parts,
                subSqlStack = JFunction v # rest\<rparr> =
      Inr \<lparr>sqlTemplate = out @ [js_plus cur (fst (shift parts))], parameters = ps,
           partsStack = snd (shift parts), subSqlStack = rest\<rparr>"
    by (simp add: sql_body_omitted)
qed

theorem falsy_slot_values_are_rendered_witness:
  "falsy (JNum NaN) \<and> JNum NaN \<noteq> JUndefined \<and> JNum NaN \<noteq> JBigInt 0 \<and>
   isSQLLiteral (JNum NaN) \<and>
   sql_body \<lparr>sqlTemplate = [Text ''x = ''], parameters = [], partsStack = [Text '';''],
             subSqlStack = [JNum NaN]\<rparr> =
   Inr \<lparr>sqlTemplate = [Text ''x = null;''], parameters = [], partsStack = [],
        subSqlStack = []\<rparr> \<and>
   sql_body \<lparr>sqlTemplate = [Text ''x = ''], parameters = [], partsStack = [Text '';''],
             subSqlStack = [JNum NaN]\<rparr> \<noteq>
   Inr \<lparr>sqlTemplate = [Text ''x = ;''], parameters = [], partsStack = [],
        subSqlStack = []\<rparr> \<and>
   sql_body \<lparr>sqlTemplate = [Text ''x = ''], parameters = [], partsStack = [Text '';''],
             subSqlStack = [JFunction (JNum NaN)]\<rparr> =
   Inr \<lparr>sqlTemplate = [Text ''x = ;''], parameters = [], partsStack = [],
        subSqlStack = []\<rparr> \<and>
   sql [''x = '', '' AND y = '', ''''] [JStr [], JNum (NumInt 0)] =
     Inr (Query (''x = '' @ [CHR 0x22, CHR 0x22] @ '' AND y = 0'')) \<and>
   sql [''x = '', '' AND y = '', ''''] [JFunction (JStr []), JFunction (JNum (NumInt 0))] =
     Inr (Query ''x =  AND y ='') \<and>
   sql [''x = '', ''''] [JBigInt 0] = Inl TypeError \<and>
   sql [''x = '', ''''] [JFunction (JBigInt 0)] = Inr (Query ''x ='')"
proof -
  have e: "sql [''x = '', '' AND y = '', ''''] [JStr [], JNum (NumInt 0)] =
     Inr (Query (''x = '' @ [CHR 0x22, CHR 0x22] @ '' AND y = 0''))"
    "sql [''x = '', '' AND y = '', ''''] [JFunction (JStr []), JFunction (JNum (NumInt 0))] =
     Inr (Query ''x =  AND y ='')"
    "sql [''x = '', ''''] [JBigInt 0] = Inl TypeError"
    "sql [''x = '', ''''] [JFunction (JBigInt 0)] = Inr (Query ''x ='')"
    by code_simp+
  have j: "JSON_stringify (JNum NaN) = Inr (Some ''null'')" by code_simp
  from falsy_slot_values_are_rendered
    [of "[]" "Text ''x = ''" "[]" "[Text '';'']" "[]" "JNum NaN"] e j
  show ?thesis by simp
qed

subsection \<open>Parameters\<close>







subsection \<open>The two errors\<close>







lemma sql_body_invalid_result_slot:
  assumes "sql_body \<lparr>sqlTemplate = tmpl, parameters = ps, partsStack = parts,
                     subSqlStack = v # rest\<rparr> = Inl (InvalidFunctionParameterResult w)"
  shows "v = JFunction w"
proof (cases "v = JUndefined \<or> isSQLLiteral v")
  case True
  with assms show ?thesis
    using insert_literal_errors [of v "\<lparr>sqlTemplate = tmpl, parameters = ps, partsStack = parts,
        subSqlStack = v # rest\<rparr>" rest]
    by (auto simp: sql_body_def split: if_splits)
next
  case False
  show ?thesis
  proof (cases "isSQLParameter v")
    case (Inl e)
    with assms False isSQLParameter_error [OF Inl] show ?thesis
      by (auto simp: sql_body_def)
  next
    case (Inr b)
    show ?thesis
    proof (cases v)
      case (JFunction r)
      with assms show ?thesis by (simp add: sql_body_invalid_result)
    qed (use assms False Inr in
         \<open>auto simp: sql_body_def split: sum.splits if_splits dest: JSON_stringify_error\<close>)
  qed
qed

lemma sql_loop_invalid_result:
  "sql_loop st = Inl (InvalidFunctionParameterResult w) \<Longrightarrow>
   \<not> falsy w \<and> \<not> isSQLLiteral w \<and> (\<exists>b. isSQLParameter w = Inr b \<and> falsy b) \<and>
   \<not> isArray w \<and> converts_to_string w"
proof (induction st rule: sql_loop.induct)
  case (1 st)
  from "1.prems" have ne: "subSqlStack st \<noteq> []"
    by (auto simp: sql_loop_done)
  then obtain tmpl ps parts v rest where st: "st = \<lparr>sqlTemplate = tmpl, parameters = ps,
      partsStack = parts, subSqlStack = v # rest\<rparr>"
    by (rule state_with_slot)
  show ?case
  proof (cases "sql_body st")
    case (Inl e)
    with "1.prems" ne have "e = InvalidFunctionParameterResult w" by (simp add: sql_loop_step)
    with Inl have b: "sql_body st = Inl (InvalidFunctionParameterResult w)" by simp
    with sql_body_invalid_result_slot [of tmpl ps parts v rest w] have "v = JFunction w"
      by (simp add: st)
    with b have "sql_body \<lparr>sqlTemplate = tmpl, parameters = ps, partsStack = parts,
        subSqlStack = JFunction w # rest\<rparr> = Inl (InvalidFunctionParameterResult w)"
      by (simp add: st)
    then show ?thesis unfolding sql_body_invalid_result by simp
  next
    case (Inr s)
    with "1.prems" ne have "sql_loop s = Inl (InvalidFunctionParameterResult w)"
      by (simp add: sql_loop_step)
    with "1.IH" [OF ne Inr] show ?thesis .
  qed
qed

lemma sql_body_result_type_error:
  assumes "\<not> falsy r" and "\<not> isSQLLiteral r" and "\<not> isArray r"
    and "isSQLParameter r = Inl e \<or> (\<not> recognized r \<and> \<not> converts_to_string r)"
  shows "sql_body \<lparr>sqlTemplate = tmpl, parameters = ps, partsStack = parts,
                   subSqlStack = JFunction r # rest\<rparr> = Inl TypeError"
proof (cases "isSQLParameter r")
  case (Inl a)
  with assms(1,2) isSQLParameter_error [OF Inl] show ?thesis
    by (simp add: sql_body_callback callback_branch_def)
next
  case (Inr b)
  with assms(4) have f: "falsy b" and c: "\<not> converts_to_string r"
    by (auto simp: recognized_def)
  with assms(1,2,3) Inr show ?thesis
    by (cases r) (simp_all add: sql_body_callback callback_branch_def)
qed

text \<open>
  Claim C6, as the code has it. When a callback returns a value that is truthy, not a
  literal and not an array, that the recognizer answers with a falsy value, and that can be
  written into the message, the iteration throws \<^verbatim>\<open>Invalid function parameter result\<close>
  with that value, and only then. An array is never rejected with this error, whether it
  is a pair \<^verbatim>\<open>[strings, values]\<close> or not. When the recognizer throws on the result, or the
  result cannot be converted to a string for the message, the composition ends with the
  \<^verbatim>\<open>TypeError\<close> of the host instead. The error ends the loop and the composition: the
  caller gets the error and no query. An \<^verbatim>\<open>Invalid function parameter result\<close> error of a
  composition always carries a value of the rejected kind.
\<close>

theorem invalid_function_result_when_unrecognized:
  "(sql_body \<lparr>sqlTemplate = tmpl, parameters = ps, partsStack = stack,
              subSqlStack = JFunction r # rest\<rparr> = Inl (InvalidFunctionParameterResult w) \<longleftrightarrow>
      w = r \<and> \<not> falsy r \<and> \<not> isSQLLiteral r \<and>
      (\<exists>b. isSQLParameter r = Inr b \<and> falsy b) \<and> \<not> isArray r \<and> converts_to_string r) \<and>
   (\<not> falsy r \<and> \<not> isSQLLiteral r \<and> (\<exists>b. isSQLParameter r = Inr b \<and> falsy b) \<and>
    \<not> isArray r \<and> converts_to_string r \<longrightarrow>
      sql_loop \<lparr>sqlTemplate = tmpl, parameters = ps, partsStack = stack,
                subSqlStack = JFunction r # rest\<rparr> = Inl (InvalidFunctionParameterResult r) \<and>
      sql parts (JFunction r # rest) = Inl (InvalidFunctionParameterResult r)) \<and>
   (isArray a \<longrightarrow>
      sql_body \<lparr>sqlTemplate = tmpl, parameters = ps, partsStack = stack,
                subSqlStack = JFunction a # rest\<rparr> \<noteq> Inl (InvalidFunctionParameterResult w) \<and>
      sql parts subSqls \<noteq> Inl (InvalidFunctionParameterResult a)) \<and>
   (\<not> falsy u \<and> \<not> isSQLLiteral u \<and> \<not> isArray u \<and>
    (isSQLParameter u = Inl e \<or> (\<not> recognized u \<and> \<not> converts_to_string u)) \<longrightarrow>
      sql_loop \<lparr>sqlTemplate = tmpl, parameters = ps, partsStack = stack,
                subSqlStack = JFunction u # rest\<rparr> = Inl TypeError \<and>
      sql parts (JFunction u # rest) = Inl TypeError) \<and>
   (sql parts subSqls = Inl (InvalidFunctionParameterResult w) \<longrightarrow>
      \<not> falsy w \<and> \<not> isSQLLiteral w \<and> (\<exists>b. isSQLParameter w = Inr b \<and> falsy b) \<and>
      \<not> isArray w \<and> converts_to_string w)"
proof (intro conjI impI)
  show "sql_body \<lparr>sqlTemplate = tmpl, parameters = ps, partsStack = stack,
              subSqlStack = JFunction r # rest\<rparr> = Inl (InvalidFunctionParameterResult w) \<longleftrightarrow>
      w = r \<and> \<not> falsy r \<and> \<not> isSQLLiteral r \<and>
      (\<exists>b. isSQLParameter r = Inr b \<and> falsy b) \<and> \<not> isArray r \<and> converts_to_string r"
    by (rule sql_body_invalid_result)
next
  assume "\<not> falsy r \<and> \<not> isSQLLiteral r \<and> (\<exists>b. isSQLParameter r = Inr b \<and> falsy b) \<and>
    \<not> isArray r \<and> converts_to_string r"
  then have b: "sql_body \<lparr>sqlTemplate = t, parameters = p, partsStack = s,
      subSqlStack = JFunction r # rest\<rparr> = Inl (InvalidFunctionParameterResult r)" for t p s
    unfolding sql_body_invalid_result by simp
  from b show "sql_loop \<lparr>sqlTemplate = tmpl, parameters = ps, partsStack = stack,
                subSqlStack = JFunction r # rest\<rparr> = Inl (InvalidFunctionParameterResult r)"
    by (simp add: sql_loop_abort)
  from b show "sql parts (JFunction r # rest) = Inl (InvalidFunctionParameterResult r)"
    by (simp add: sql_first_slot_error init_eq)
next
  assume a: "isArray a"
  then show "sql_body \<lparr>sqlTemplate = tmpl, parameters = ps, partsStack = stack,
                subSqlStack = JFunction a # rest\<rparr> \<noteq> Inl (InvalidFunctionParameterResult w)"
    unfolding sql_body_invalid_result by simp
  show "sql parts subSqls \<noteq> Inl (InvalidFunctionParameterResult a)"
  proof
    assume "sql parts subSqls = Inl (InvalidFunctionParameterResult a)"
    then have "sql_loop (init parts subSqls) = Inl (InvalidFunctionParameterResult a)"
      by (simp add: sql_def split: sum.splits)
    from sql_loop_invalid_result [OF this] a show False by simp
  qed
next
  assume "\<not> falsy u \<and> \<not> isSQLLiteral u \<and> \<not> isArray u \<and>
    (isSQLParameter u = Inl e \<or> (\<not> recognized u \<and> \<not> converts_to_string u))"
  then have b: "sql_body \<lparr>sqlTemplate = t, parameters = p, partsStack = s,
      subSqlStack = JFunction u # rest\<rparr> = Inl TypeError" for t p s
    using sql_body_result_type_error [of u e] by blast
  from b show "sql_loop \<lparr>sqlTemplate = tmpl, parameters = ps, partsStack = stack,
                subSqlStack = JFunction u # rest\<rparr> = Inl TypeError"
    by (simp add: sql_loop_abort)
  from b show "sql parts (JFunction u # rest) = Inl TypeError"
    by (simp add: sql_first_slot_error init_eq)
next
  assume "sql parts subSqls = Inl (InvalidFunctionParameterResult w)"
  then have "sql_loop (init parts subSqls) = Inl (InvalidFunctionParameterResult w)"
    by (simp add: sql_def split: sum.splits)
  then have r: "\<not> falsy w \<and> \<not> isSQLLiteral w \<and> (\<exists>b. isSQLParameter w = Inr b \<and> falsy b) \<and>
      \<not> isArray w \<and> converts_to_string w"
    by (rule sql_loop_invalid_result)
  from r show "\<not> falsy w" by simp
  from r show "\<not> isSQLLiteral w" by simp
  from r show "\<exists>b. isSQLParameter w = Inr b \<and> falsy b" by simp
  from r show "\<not> isArray w" by simp
  from r show "converts_to_string w" by simp
qed

theorem invalid_function_result_when_unrecognized_witness:
  "\<not> falsy (JObject [(''rows'', JNum (NumInt 3))]) \<and>
   \<not> isSQLLiteral (JObject [(''rows'', JNum (NumInt 3))]) \<and>
   isSQLParameter (JObject [(''rows'', JNum (NumInt 3))]) = Inr (JBool False) \<and>
   falsy (JBool False) \<and>
   \<not> isArray (JObject [(''rows'', JNum (NumInt 3))]) \<and>
   converts_to_string (JObject [(''rows'', JNum (NumInt 3))]) \<and>
   sql [''SELECT '', ''''] [JFunction (JObject [(''rows'', JNum (NumInt 3))])] =
     Inl (InvalidFunctionParameterResult (JObject [(''rows'', JNum (NumInt 3))])) \<and>
   isArray (JArray [JStr ''x'']) \<and>
   sql [''SELECT '', ''''] [JFunction (JObject [(''rows'', JNum (NumInt 3))])] \<noteq>
     Inl (InvalidFunctionParameterResult (JArray [JStr ''x''])) \<and>
   \<not> falsy (JObject [(''toString'', JNum (NumInt 1))]) \<and>
   \<not> isSQLLiteral (JObject [(''toString'', JNum (NumInt 1))]) \<and>
   \<not> isArray (JObject [(''toString'', JNum (NumInt 1))]) \<and>
   \<not> recognized (JObject [(''toString'', JNum (NumInt 1))]) \<and>
   \<not> converts_to_string (JObject [(''toString'', JNum (NumInt 1))]) \<and>
   sql [''SELECT '', ''''] [JFunction (JObject [(''toString'', JNum (NumInt 1))])] = Inl TypeError"
proof -
  have r: "\<not> falsy (JObject [(''rows'', JNum (NumInt 3))]) \<and>
   \<not> isSQLLiteral (JObject [(''rows'', JNum (NumInt 3))]) \<and>
   isSQLParameter (JObject [(''rows'', JNum (NumInt 3))]) = Inr (JBool False) \<and>
   falsy (JBool False) \<and>
   \<not> isArray (JObject [(''rows'', JNum (NumInt 3))]) \<and>
   converts_to_string (JObject [(''rows'', JNum (NumInt 3))])"
    by (simp add: isSQLLiteral_def hasOwnProperty_def by_valueOf_def)
  have u: "\<not> falsy (JObject [(''toString'', JNum (NumInt 1))]) \<and>
   \<not> isSQLLiteral (JObject [(''toString'', JNum (NumInt 1))]) \<and>
   \<not> isArray (JObject [(''toString'', JNum (NumInt 1))]) \<and>
   \<not> recognized (JObject [(''toString'', JNum (NumInt 1))]) \<and>
   \<not> converts_to_string (JObject [(''toString'', JNum (NumInt 1))])"
    by (simp add: isSQLLiteral_def hasOwnProperty_def by_valueOf_def recognized_def)
  from invalid_function_result_when_unrecognized
    [of "[]" "[]" "[]" "JObject [(''rows'', JNum (NumInt 3))]" "[]"
        "JObject [(''rows'', JNum (NumInt 3))]" "[''SELECT '', '''']"
        "JArray [JStr ''x'']" "[JFunction (JObject [(''rows'', JNum (NumInt 3))])]"
        "JObject [(''toString'', JNum (NumInt 1))]" TypeError]
    r u
  show ?thesis by simp
qed

text \<open>The claim as the specification states it fails for a callback that returns an array
  which is no pair \<^verbatim>\<open>[strings, values]\<close>. The code asks \<^verbatim>\<open>Array.isArray\<close> only:
  \<^verbatim>\<open>['x']\<close> is spliced and the composition returns a query, and \<^verbatim>\<open>[]\<close> makes line 131 read
  an element of \<^verbatim>\<open>undefined\<close>, a \<^verbatim>\<open>TypeError\<close>. A result \<^verbatim>\<open>{ toString: 1 }\<close> is of none of
  the recognized shapes either, and the composition ends with a \<^verbatim>\<open>TypeError\<close> while the
  message of line 146 is built.\<close>

theorem array_result_is_never_rejected:
  "\<not> falsy (JArray [JStr ''x'']) \<and> \<not> isSQLLiteral (JArray [JStr ''x'']) \<and>
   \<not> recognized (JArray [JStr ''x'']) \<and>
   sql [''A'', ''B'', ''C''] [JFunction (JArray [JStr ''x'']), JNum (NumInt 1)] =
     Inr (Query ''Ax1B'') \<and>
   \<not> falsy (JArray []) \<and> \<not> isSQLLiteral (JArray []) \<and> \<not> recognized (JArray []) \<and>
   sql [''A'', ''B'', ''C''] [JFunction (JArray []), JNum (NumInt 1)] = Inl TypeError \<and>
   \<not> falsy (JObject [(''toString'', JNum (NumInt 1))]) \<and>
   \<not> isSQLLiteral (JObject [(''toString'', JNum (NumInt 1))]) \<and>
   \<not> recognized (JObject [(''toString'', JNum (NumInt 1))]) \<and>
   \<not> isArray (JObject [(''toString'', JNum (NumInt 1))]) \<and>
   sql [''A'', ''B''] [JFunction (JObject [(''toString'', JNum (NumInt 1))])] = Inl TypeError"
  by code_simp

subsection \<open>A callback's template of one string\<close>

text \<open>When the template that a callback returns has a single string, line 134 goes on to the
  next slot and \<^verbatim>\<open>partsStack\<close> keeps the segment that follows the callback's slot: the
  next slot takes that segment, and the last segment of the outer template is not used.\<close>

lemma single_string_template_keeps_next_segment:
  "sql_body \<lparr>sqlTemplate = out @ [cur], parameters = ps, partsStack = parts,
             subSqlStack = JFunction (InlineSQLResult [s] inlineSubSqls) # rest\<rparr> =
   Inr \<lparr>sqlTemplate = out @ [js_plus cur (Text s)], parameters = ps, partsStack = parts,
        subSqlStack = rest\<rparr>"
  by (simp add: body_defs isSQLLiteral_def InlineSQLResult_def at_index_def element_def)

lemma single_string_template_example:
  "sql [''A'', ''C''] [JFunction (InlineSQLResult [''B''] [])] = Inr (Query ''AB'') \<and>
   sql [''SELECT '', '' FROM '', '' t''] [JFunction (InlineSQLResult [''a''] []), JNum (NumInt 1)] =
     Inr (Query ''SELECT a1 FROM'')"
  by code_simp

end
